theory Spec2Isabelle
  imports Complex_Main "HOL-Library.Sublist" "HOL-Library.Option_ord"
begin

section \<open>Data model\<close>

text \<open>
  The entities of the environment controller and of the reconciliation service.
  A point in time (an ISO string in the DTOs, a datetime column in the store) is a
  natural number; a column that may be NULL, or a property that may be undefined, is an
  option. Costs are JavaScript numbers: a finite double is the real number it denotes
  (NaN and the infinities are not represented). The addition of doubles rounds; it is a
  parameter of the cost recompute. A relation to another entity is the identity of that entity
  (\<open>orgId\<close>, \<open>envId\<close>, \<open>compId\<close>, \<open>envReconId\<close>, the names the source reads
  them by), except where the code reads the related entity itself. Fields that several
  entities share are written with the record's name in front.
\<close>

type_synonym datetime = nat

datatype error = PersistenceFailure | TypeError

record organization =
  id :: nat
  name :: string

record team =
  id :: nat
  name :: string

text \<open>\<^verbatim>\<open>EnvSpecComponentDto\<close>: a name, and a configuration whose shape the code never reads.\<close>

record 'c envSpecComponentDto =
  name :: string
  config :: 'c

text \<open>
  \<^verbatim>\<open>ComponentReconcile\<close>. \<open>compId\<close> is the \<^verbatim>\<open>component\<close> relation; the controller
  sets it to null on the copy it hands to the component update.
\<close>

record componentReconcile =
  reconcileId :: nat
  compId :: "nat option"
  status :: string
  orgId :: nat
  startDateTime :: "datetime option"
  envReconId :: nat
  endDateTime :: "datetime option"
  estimatedCost :: real
  isSkipped :: "bool option"

record component =
  id :: nat
  name :: string
  isDeleted :: bool
  envId :: nat
  latestCompRecon :: "componentReconcile option"

text \<open>
  \<^verbatim>\<open>EnvironmentReconcile\<close>: the columns, and the entity in memory, which may carry the
  loaded \<^verbatim>\<open>componentReconciles\<close> relation.
\<close>

record 'c environmentReconcile =
  reconcileId :: nat
  startDateTime :: "datetime option"
  envId :: nat
  teamId :: nat
  status :: string
  orgId :: nat
  dag :: "'c envSpecComponentDto list"
  gitSha :: string
  errorMessage :: "string option"
  endDateTime :: "datetime option"
  estimatedCost :: real

record 'c envReconEntity = "'c environmentReconcile" +
  componentReconciles :: "componentReconcile list option"

record 'c environment =
  id :: nat
  orgId :: nat
  name :: string
  dag :: "'c envSpecComponentDto list"
  isDeleted :: bool
  components :: "component list"
  latestEnvRecon :: "'c envReconEntity option"

record 'c createEnvironmentDto =
  name :: string
  dag :: "'c envSpecComponentDto list"

record 'c createEnvironmentReconciliationDto =
  components :: "'c envSpecComponentDto list"
  name :: string
  startDateTime :: "datetime option"
  teamName :: string
  errorMessage :: "string option"

record createComponentReconciliationDto =
  status :: "string option"
  name :: string
  envReconcileId :: nat
  startDateTime :: "datetime option"

text \<open>
  The store behind the repositories: one table per entity, in insertion order, and the
  next generated \<^verbatim>\<open>reconcileId\<close> of each reconciliation table.
\<close>

record 'c store =
  envRepo :: "'c environment list"
  compRepo :: "component list"
  envReconRepo :: "'c environmentReconcile list"
  compReconRepo :: "componentReconcile list"
  nextEnvReconId :: nat
  nextCompReconId :: nat

text \<open>
  Which writes of an environment run the store rejects: the insert of the environment
  reconciliation, and, by component id, the insert of a component reconciliation and
  the update of a component. An operation that can throw returns its outcome, the error
  thrown or the value returned, together with the store as the call leaves it.
\<close>

record faults =
  envReconSaveFails :: bool
  compReconSaveFails :: "nat \<Rightarrow> bool"
  compUpdateFails :: "nat \<Rightarrow> bool"

section \<open>The diff of saveOrUpdate\<close>

text \<open>
  \<^verbatim>\<open>incoming.filter((inc) => !currentComps.find((comp) => comp.name === inc.name))\<close>
\<close>

definition newComponents ::
  "component list \<Rightarrow> 'c envSpecComponentDto list \<Rightarrow> 'c envSpecComponentDto list" where
  "newComponents currentComps incoming =
     filter (\<lambda>inc. find (\<lambda>cmp. component.name cmp = envSpecComponentDto.name inc) currentComps = None)
       incoming"

text \<open>
  The \<^verbatim>\<open>for (const comp of currentComps)\<close> loop, with its two arrays
  \<^verbatim>\<open>missingComponents\<close> and \<^verbatim>\<open>existingComponents\<close> as accumulators that grow at
  the end (\<^verbatim>\<open>push\<close>).
\<close>

fun diffLoop ::
  "component list \<Rightarrow> 'c envSpecComponentDto list \<Rightarrow>
   component list \<times> 'c envSpecComponentDto list \<Rightarrow>
   component list \<times> 'c envSpecComponentDto list" where
  "diffLoop [] incoming (missing, existing) = (missing, existing)"
| "diffLoop (cmp # rest) incoming (missing, existing) =
     (case find (\<lambda>i. component.name cmp = envSpecComponentDto.name i) incoming of
        None \<Rightarrow> diffLoop rest incoming (missing @ [cmp], existing)
      | Some found \<Rightarrow> diffLoop rest incoming (missing, existing @ [found]))"

definition missingComponents ::
  "component list \<Rightarrow> 'c envSpecComponentDto list \<Rightarrow> component list" where
  "missingComponents currentComps incoming = fst (diffLoop currentComps incoming ([], []))"

definition existingComponents ::
  "component list \<Rightarrow> 'c envSpecComponentDto list \<Rightarrow> 'c envSpecComponentDto list" where
  "existingComponents currentComps incoming = snd (diffLoop currentComps incoming ([], []))"

text \<open>\<^verbatim>\<open>[].concat(existingComponents).concat(newComponents)\<close>\<close>

definition mergedDag ::
  "component list \<Rightarrow> 'c envSpecComponentDto list \<Rightarrow> 'c envSpecComponentDto list" where
  "mergedDag currentComps incoming =
     [] @ existingComponents currentComps incoming @ newComponents currentComps incoming"

section \<open>Creating reconciliation records\<close>

text \<open>
  \<^verbatim>\<open>ReconciliationService.createEnvRecon\<close>: \<^verbatim>\<open>envReconRepo.save\<close> of an object without
  a \<^verbatim>\<open>reconcileId\<close> inserts a row and returns it with the generated id. The columns the
  object leaves out take the defaults of the data model (no end time, cost 0).
  \<^verbatim>\<open>createEnv.errorMessage || null\<close> turns the empty string into null as well.
\<close>

definition ReconciliationService_createEnvRecon ::
  "faults \<Rightarrow> 'c store \<Rightarrow> organization \<Rightarrow> team \<Rightarrow> 'c environment \<Rightarrow>
   'c createEnvironmentReconciliationDto \<Rightarrow> (error + 'c environmentReconcile) \<times> 'c store" where
  "ReconciliationService_createEnvRecon f s org tm env createEnv =
     (if envReconSaveFails f then (Inl PersistenceFailure, s)
      else
        let saved =
          \<lparr>environmentReconcile.reconcileId = nextEnvReconId s,
           startDateTime = createEnvironmentReconciliationDto.startDateTime createEnv,
           envId = environment.id env,
           teamId = team.id tm,
           status = ''initializing'',
           orgId = organization.id org,
           dag = createEnvironmentReconciliationDto.components createEnv,
           gitSha = '''',
           errorMessage =
             (case createEnvironmentReconciliationDto.errorMessage createEnv of
                None \<Rightarrow> None
              | Some m \<Rightarrow> if m = '''' then None else Some m),
           endDateTime = None,
           estimatedCost = 0\<rparr>
        in (Inr saved, s\<lparr>envReconRepo := envReconRepo s @ [saved],
                          nextEnvReconId := Suc (nextEnvReconId s)\<rparr>))"

text \<open>
  \<^verbatim>\<open>ReconciliationService.createCompRecon\<close>. \<^verbatim>\<open>createComp.status || 'initializing'\<close>
  replaces a missing or empty status.
\<close>

definition createCompRecon ::
  "faults \<Rightarrow> 'c store \<Rightarrow> organization \<Rightarrow> ('c, 'm) environmentReconcile_scheme \<Rightarrow> component \<Rightarrow>
   createComponentReconciliationDto \<Rightarrow> (error + componentReconcile) \<times> 'c store" where
  "createCompRecon f s org envRecon cmp createComp =
     (if compReconSaveFails f (component.id cmp) then (Inl PersistenceFailure, s)
      else
        let saved =
          \<lparr>componentReconcile.reconcileId = nextCompReconId s,
           compId = Some (component.id cmp),
           status =
             (case createComponentReconciliationDto.status createComp of
                None \<Rightarrow> ''initializing''
              | Some st \<Rightarrow> if st = '''' then ''initializing'' else st),
           orgId = organization.id org,
           startDateTime = createComponentReconciliationDto.startDateTime createComp,
           envReconId = environmentReconcile.reconcileId envRecon,
           endDateTime = None,
           estimatedCost = 0,
           isSkipped = None\<rparr>
        in (Inr saved, s\<lparr>compReconRepo := compReconRepo s @ [saved],
                          nextCompReconId := Suc (nextCompReconId s)\<rparr>))"

text \<open>
  Modelled from the spec: \<^verbatim>\<open>EnvironmentService.findById(org, id, false, true)\<close> is not
  in the source. It reloads the environment of that organization with its components;
  the caller filters the deleted ones out itself.
\<close>

definition findById :: "'c store \<Rightarrow> organization \<Rightarrow> nat \<Rightarrow> 'c environment option" where
  "findById s org ident =
     map_option
       (\<lambda>e. e\<lparr>environment.components := filter (\<lambda>cmp. component.envId cmp = ident) (compRepo s)\<rparr>)
       (find (\<lambda>e. environment.id e = ident \<and> environment.orgId e = organization.id org) (envRepo s))"

text \<open>
  Modelled from the spec: \<^verbatim>\<open>ComponentService.update(org, c, {latestCompRecon})\<close> is not
  in the source. It reassigns the latest-run reference of the component with that id.
\<close>

definition ComponentService_update ::
  "faults \<Rightarrow> 'c store \<Rightarrow> organization \<Rightarrow> component \<Rightarrow> componentReconcile \<Rightarrow>
   (error + unit) \<times> 'c store" where
  "ComponentService_update f s org cmp compRecon =
     (if compUpdateFails f (component.id cmp) then (Inl PersistenceFailure, s)
      else (Inr (),
            s\<lparr>compRepo :=
                map (\<lambda>x. if component.id x = component.id cmp
                         then x\<lparr>latestCompRecon := Some compRecon\<rparr> else x)
                  (compRepo s)\<rparr>))"

text \<open>
  The body of the \<^verbatim>\<open>map(async (c) => ...)\<close> of the controller's \<^verbatim>\<open>createEnvRecon\<close>,
  with the outcome \<^verbatim>\<open>Promise.allSettled\<close> records for it: a rejection at either await
  ends this component's work and leaves the store as it was at that point.
\<close>

definition perComponent ::
  "faults \<Rightarrow> organization \<Rightarrow> ('c, 'm) environmentReconcile_scheme \<Rightarrow> component \<Rightarrow> 'c store \<Rightarrow>
   (error + unit) \<times> 'c store" where
  "perComponent f org envRecon c s =
     (case createCompRecon f s org envRecon c
             \<lparr>createComponentReconciliationDto.status = Some ''waiting_for_parent'',
              name = component.name c,
              envReconcileId = environmentReconcile.reconcileId envRecon,
              startDateTime = None\<rparr> of
        (Inl e, s1) \<Rightarrow> (Inl e, s1)
      | (Inr compRecon, s1) \<Rightarrow>
          ComponentService_update f s1 org c (compRecon\<lparr>compId := None\<rparr>))"

text \<open>
  \<^verbatim>\<open>Promise.allSettled\<close> over the components: every component is attempted, whatever
  the outcome of the others. The model runs them one after the other in list order,
  which is one of the schedules the event loop allows.
\<close>

fun allSettled ::
  "faults \<Rightarrow> organization \<Rightarrow> ('c, 'm) environmentReconcile_scheme \<Rightarrow> component list \<Rightarrow> 'c store \<Rightarrow>
   (error + unit) list \<times> 'c store" where
  "allSettled f org envRecon [] s = ([], s)"
| "allSettled f org envRecon (c # cs) s =
     (case perComponent f org envRecon c s of
        (outcome, s1) \<Rightarrow>
          (case allSettled f org envRecon cs s1 of
             (outcomes, s2) \<Rightarrow> (outcome # outcomes, s2)))"

text \<open>
  The controller's \<^verbatim>\<open>createEnvRecon\<close>; \<open>now\<close> is \<^verbatim>\<open>new Date().toISOString()\<close>. A
  rejected insert of the environment reconciliation is thrown on, and so is the TypeError
  of reading \<^verbatim>\<open>components\<close> of an environment that was not found. The outcomes of
  \<^verbatim>\<open>Promise.allSettled\<close> are dropped, as in the source.
\<close>

definition createEnvRecon ::
  "faults \<Rightarrow> datetime \<Rightarrow> 'c store \<Rightarrow> organization \<Rightarrow> team \<Rightarrow> 'c environment \<Rightarrow>
   'c createEnvironmentDto \<Rightarrow> (error + 'c environmentReconcile) \<times> 'c store" where
  "createEnvRecon f now s org tm env createEnv =
     (case ReconciliationService_createEnvRecon f s org tm env
             \<lparr>components = createEnvironmentDto.dag createEnv,
              name = environment.name env,
              startDateTime = Some now,
              teamName = team.name tm,
              errorMessage = None\<rparr> of
        (Inl e, s1) \<Rightarrow> (Inl e, s1)
      | (Inr envRecon, s1) \<Rightarrow>
          (case findById s1 org (environment.id env) of
             None \<Rightarrow> (Inl TypeError, s1)
           | Some envWithComps \<Rightarrow>
               (Inr envRecon,
                snd (allSettled f org envRecon
                       (filter (\<lambda>c. \<not> component.isDeleted c) (environment.components envWithComps)) s1))))"

section \<open>The stale-run sweeper\<close>

text \<open>
  \<^verbatim>\<open>save\<close> of an entity that has its \<^verbatim>\<open>reconcileId\<close>: the columns of the entity
  replace the row with that id (a row is inserted when there is none). The writes of
  this section and of the cost recompute are taken to be accepted by the store.
\<close>

definition saveCompReconRow :: "componentReconcile list \<Rightarrow> componentReconcile \<Rightarrow> componentReconcile list" where
  "saveCompReconRow rows row =
     (if find (\<lambda>r. componentReconcile.reconcileId r = componentReconcile.reconcileId row) rows = None
      then rows @ [row]
      else map (\<lambda>r. if componentReconcile.reconcileId r = componentReconcile.reconcileId row
                     then row else r) rows)"

definition saveEnvReconRow ::
  "'c environmentReconcile list \<Rightarrow> 'c environmentReconcile \<Rightarrow> 'c environmentReconcile list" where
  "saveEnvReconRow rows row =
     (if find (\<lambda>r. environmentReconcile.reconcileId r = environmentReconcile.reconcileId row) rows = None
      then rows @ [row]
      else map (\<lambda>r. if environmentReconcile.reconcileId r = environmentReconcile.reconcileId row
                     then row else r) rows)"

text \<open>
  Modelled from the spec: the declaration of the \<^verbatim>\<open>componentReconciles\<close> relation of
  \<^verbatim>\<open>EnvironmentReconcile\<close> is not in the source. \<^verbatim>\<open>envReconRepo.save\<close> writes the
  columns of the entity and, when the entity carries the relation, writes the children it
  carries over the stored ones, each by its own id; an entity without the relation leaves
  the stored children alone.
\<close>

definition envReconRepo_save :: "'c store \<Rightarrow> 'c envReconEntity \<Rightarrow> 'c store" where
  "envReconRepo_save s entity =
     s\<lparr>envReconRepo := saveEnvReconRow (envReconRepo s) (environmentReconcile.truncate entity),
       compReconRepo :=
         (case componentReconciles entity of
            None \<Rightarrow> compReconRepo s
          | Some children \<Rightarrow> foldl saveCompReconRow (compReconRepo s) children)\<rparr>"

text \<open>\<^verbatim>\<open>compReconRepo.save\<close> of an entity that has its \<^verbatim>\<open>reconcileId\<close>.\<close>

definition compReconRepo_save :: "'c store \<Rightarrow> componentReconcile \<Rightarrow> 'c store" where
  "compReconRepo_save s entity = s\<lparr>compReconRepo := saveCompReconRow (compReconRepo s) entity\<rparr>"

text \<open>
  \<^verbatim>\<open>getSkippedEnvironments\<close>: the \<^verbatim>\<open>where\<close> clause of the \<^verbatim>\<open>find\<close>, and the rows it
  returns as entities. No relation is asked for, so none is loaded.
\<close>

definition skippedEnvironmentsWhere ::
  "organization \<Rightarrow> team \<Rightarrow> 'c environment \<Rightarrow> nat list \<Rightarrow> 'c environmentReconcile \<Rightarrow> bool" where
  "skippedEnvironmentsWhere org tm env ignoreReconcileIds r =
     (environmentReconcile.endDateTime r = None \<and>
      environmentReconcile.status r \<noteq> ''skipped_reconcile'' \<and>
      environmentReconcile.reconcileId r \<notin> set ignoreReconcileIds \<and>
      environmentReconcile.teamId r = team.id tm \<and>
      environmentReconcile.orgId r = organization.id org \<and>
      environmentReconcile.envId r = environment.id env)"

definition getSkippedEnvironments ::
  "'c store \<Rightarrow> organization \<Rightarrow> team \<Rightarrow> 'c environment \<Rightarrow> nat list \<Rightarrow> 'c envReconEntity list" where
  "getSkippedEnvironments s org tm env ignoreReconcileIds =
     map (\<lambda>r. environmentReconcile.extend r (envReconEntity.fields None))
       (filter (skippedEnvironmentsWhere org tm env ignoreReconcileIds) (envReconRepo s))"

text \<open>\<^verbatim>\<open>bulkUpdateEnvironmentEntries\<close>: \<^verbatim>\<open>{...entry, status}\<close> for every entry, saved.\<close>

definition bulkUpdateEnvironmentEntries ::
  "'c store \<Rightarrow> 'c envReconEntity list \<Rightarrow> string \<Rightarrow> 'c store" where
  "bulkUpdateEnvironmentEntries s entries st =
     (if length entries > 0
      then foldl envReconRepo_save s
             (map (\<lambda>entry. entry\<lparr>environmentReconcile.status := st\<rparr>) entries)
      else s)"

text \<open>\<^verbatim>\<open>getSkippedComponents\<close> and \<^verbatim>\<open>bulkUpdateComponentEntries\<close>.\<close>

definition skippedComponentsWhere ::
  "organization \<Rightarrow> ('c, 'm) environmentReconcile_scheme \<Rightarrow> component \<Rightarrow> nat list \<Rightarrow>
   componentReconcile \<Rightarrow> bool" where
  "skippedComponentsWhere org envRecon cmp ignoreReconcileIds r =
     (componentReconcile.compId r = Some (component.id cmp) \<and>
      componentReconcile.endDateTime r = None \<and>
      componentReconcile.status r \<noteq> ''skipped_reconcile'' \<and>
      componentReconcile.reconcileId r \<notin> set ignoreReconcileIds \<and>
      componentReconcile.envReconId r = environmentReconcile.reconcileId envRecon \<and>
      componentReconcile.orgId r = organization.id org)"

definition getSkippedComponents ::
  "'c store \<Rightarrow> organization \<Rightarrow> ('c, 'm) environmentReconcile_scheme \<Rightarrow> component \<Rightarrow> nat list \<Rightarrow>
   componentReconcile list" where
  "getSkippedComponents s org envRecon cmp ignoreReconcileIds =
     filter (skippedComponentsWhere org envRecon cmp ignoreReconcileIds) (compReconRepo s)"

definition bulkUpdateComponentEntries ::
  "'c store \<Rightarrow> componentReconcile list \<Rightarrow> string \<Rightarrow> 'c store" where
  "bulkUpdateComponentEntries s entries st =
     (if length entries > 0
      then foldl compReconRepo_save s
             (map (\<lambda>entry. entry\<lparr>componentReconcile.status := st\<rparr>) entries)
      else s)"

section \<open>The cost recompute\<close>

text \<open>
  The \<^verbatim>\<open>for (const comp of env.components)\<close> loop of \<^verbatim>\<open>updateCost\<close>, with the running
  \<^verbatim>\<open>estimatedCost\<close> as \<open>cost\<close>. \<^verbatim>\<open>comp.latestCompRecon?.estimatedCost > 0\<close> is false when the
  component has no latest reconciliation. The \<^verbatim>\<open>+=\<close> adds two doubles and rounds the
  result; that addition is the parameter \<open>add\<close>, applied from left to right in the order
  of the components, as the loop does.
\<close>

fun costLoop :: "(real \<Rightarrow> real \<Rightarrow> real) \<Rightarrow> component list \<Rightarrow> real \<Rightarrow> real" where
  "costLoop add [] cost = cost"
| "costLoop add (cmp # rest) cost =
     (case latestCompRecon cmp of
        None \<Rightarrow> costLoop add rest cost
      | Some r \<Rightarrow>
          if componentReconcile.estimatedCost r > 0
          then costLoop add rest (add cost (componentReconcile.estimatedCost r))
          else costLoop add rest cost)"

text \<open>
  \<^verbatim>\<open>updateCost\<close>. \<^verbatim>\<open>delete envRecon.componentReconciles\<close> throws a TypeError when the
  environment has no latest reconciliation. The delete and the merge change the entity
  the environment holds, so the environment is returned as the call leaves it.
\<close>

definition updateCost ::
  "(real \<Rightarrow> real \<Rightarrow> real) \<Rightarrow> 'c store \<Rightarrow> 'c environment \<Rightarrow> (error + 'c environment) \<times> 'c store" where
  "updateCost add s env =
     (let cost = costLoop add (environment.components env) 0.0 in
      case latestEnvRecon env of
        None \<Rightarrow> (Inl TypeError, s)
      | Some envRecon \<Rightarrow>
          let deleted = envRecon\<lparr>componentReconciles := None\<rparr>;
              merged = deleted\<lparr>environmentReconcile.estimatedCost := cost\<rparr>
          in (Inr (env\<lparr>latestEnvRecon := Some merged\<rparr>), envReconRepo_save s merged))"

section \<open>The latest meaningful component run\<close>

text \<open>
  \<^verbatim>\<open>findOne\<close> with \<^verbatim>\<open>order: { startDateTime: -1 }\<close>: a row with the greatest start time
  among the rows handed over, the first of them in table order. A NULL start time sorts
  below every time.
\<close>

fun findOneLatest :: "componentReconcile list \<Rightarrow> componentReconcile option" where
  "findOneLatest [] = None"
| "findOneLatest (r # rs) =
     (case findOneLatest rs of
        None \<Rightarrow> Some r
      | Some best \<Rightarrow>
          if componentReconcile.startDateTime r < componentReconcile.startDateTime best
          then Some best else Some r)"

text \<open>
  \<^verbatim>\<open>Like('skipped%')\<close> is matched by the database: the value starts with the text before
  the \<^verbatim>\<open>%\<close>, and the database compares the ASCII letters of a \<^verbatim>\<open>LIKE\<close> without regard to
  their case. \<^verbatim>\<open>Not('waiting_for_parent')\<close> is the database's \<^verbatim>\<open><>\<close>, which compares the
  strings as they are.
\<close>

definition asciiLower :: "char \<Rightarrow> char" where
  "asciiLower c =
     (case map_of (zip ''ABCDEFGHIJKLMNOPQRSTUVWXYZ'' ''abcdefghijklmnopqrstuvwxyz'') c of
        None \<Rightarrow> c
      | Some l \<Rightarrow> l)"

definition likePrefix :: "string \<Rightarrow> string \<Rightarrow> bool" where
  "likePrefix p v = prefix (map asciiLower p) (map asciiLower v)"

text \<open>
  \<^verbatim>\<open>getLatestCompReconcile\<close>: the shared \<^verbatim>\<open>whereClause\<close>, and the two alternatives of
  the \<^verbatim>\<open>where\<close> array, which differ in \<^verbatim>\<open>isSkipped\<close> only.
\<close>

definition whereClause :: "organization \<Rightarrow> component \<Rightarrow> componentReconcile \<Rightarrow> bool" where
  "whereClause org cmp r =
     (componentReconcile.compId r = Some (component.id cmp) \<and>
      (\<not> likePrefix ''skipped'' (componentReconcile.status r) \<and>
       componentReconcile.status r \<noteq> ''waiting_for_parent'') \<and>
      componentReconcile.orgId r = organization.id org)"

definition getLatestCompReconcile ::
  "'c store \<Rightarrow> organization \<Rightarrow> component \<Rightarrow> componentReconcile option" where
  "getLatestCompReconcile s org cmp =
     findOneLatest
       (filter (\<lambda>r. (whereClause org cmp r \<and> isSkipped r = None) \<or>
                    (whereClause org cmp r \<and> isSkipped r = Some False))
          (compReconRepo s))"

section \<open>Notions used in the statements and proofs\<close>

text \<open>
  What every record of a run's fan-out looks like, and how far a component row may
  differ after the fan-out from the row before it: not at all, or, for a component whose
  id is among those the fan-out handled, in its latest-run reference only.
\<close>

definition newCompRecon :: "organization \<Rightarrow> ('c, 'm) environmentReconcile_scheme \<Rightarrow> componentReconcile \<Rightarrow> bool" where
  "newCompRecon org envRecon r =
     (componentReconcile.status r = ''waiting_for_parent'' \<and>
      componentReconcile.envReconId r = environmentReconcile.reconcileId envRecon \<and>
      componentReconcile.startDateTime r = None \<and>
      componentReconcile.endDateTime r = None \<and>
      componentReconcile.orgId r = organization.id org)"

definition touched :: "nat set \<Rightarrow> component \<Rightarrow> component \<Rightarrow> bool" where
  "touched ids x y =
     (y = x \<or> (component.id x \<in> ids \<and> (\<exists>r. y = x\<lparr>latestCompRecon := Some r\<rparr>)))"

section \<open>Example data\<close>

text \<open>
  The scenario of the specification: an environment with three live components and one
  soft-deleted component, in an otherwise empty store; a store that accepts every write,
  and one that rejects the insert for component 3 and the update of component 4.
\<close>

definition exampleOrg :: organization where
  "exampleOrg = \<lparr>organization.id = 1, name = ''acme''\<rparr>"

definition exampleTeam :: team where
  "exampleTeam = \<lparr>team.id = 1, name = ''platform''\<rparr>"

definition exampleEnv :: "unit environment" where
  "exampleEnv =
     \<lparr>environment.id = 1, orgId = 1, name = ''prod'', dag = [], isDeleted = False,
      components = [], latestEnvRecon = None\<rparr>"

definition exampleComponents :: "component list" where
  "exampleComponents =
     [\<lparr>component.id = 1, name = ''network'', isDeleted = False, envId = 1, latestCompRecon = None\<rparr>,
      \<lparr>component.id = 2, name = ''legacy'', isDeleted = True, envId = 1, latestCompRecon = None\<rparr>,
      \<lparr>component.id = 3, name = ''database'', isDeleted = False, envId = 1, latestCompRecon = None\<rparr>,
      \<lparr>component.id = 4, name = ''service'', isDeleted = False, envId = 1, latestCompRecon = None\<rparr>]"

definition exampleStore :: "unit store" where
  "exampleStore =
     \<lparr>envRepo = [exampleEnv], compRepo = exampleComponents, envReconRepo = [],
      compReconRepo = [], nextEnvReconId = 1, nextCompReconId = 1\<rparr>"

definition noFaults :: faults where
  "noFaults =
     \<lparr>envReconSaveFails = False, compReconSaveFails = (\<lambda>_. False), compUpdateFails = (\<lambda>_. False)\<rparr>"


text \<open>
  A store with reconciliation records in every state a sweep meets: closed, open, already
  retired, to be kept (id 4) and out of scope.
\<close>

definition exampleEnvRecon :: "unit environmentReconcile" where
  "exampleEnvRecon =
     \<lparr>environmentReconcile.reconcileId = 1, startDateTime = Some 100, envId = 1, teamId = 1,
      status = ''initializing'', orgId = 1, dag = [], gitSha = '''', errorMessage = None,
      endDateTime = None, estimatedCost = 0\<rparr>"

definition exampleCompRecon :: componentReconcile where
  "exampleCompRecon =
     \<lparr>componentReconcile.reconcileId = 1, compId = Some 1, status = ''succeeded'', orgId = 1,
      startDateTime = Some 10, envReconId = 4, endDateTime = Some 20, estimatedCost = 0,
      isSkipped = None\<rparr>"

definition exampleSweepStore :: "unit store" where
  "exampleSweepStore =
     \<lparr>envRepo = [exampleEnv], compRepo = exampleComponents,
      envReconRepo =
        [exampleEnvRecon\<lparr>environmentReconcile.status := ''succeeded'',
                         environmentReconcile.endDateTime := Some 150\<rparr>,
         exampleEnvRecon\<lparr>environmentReconcile.reconcileId := 2,
                         environmentReconcile.status := ''running''\<rparr>,
         exampleEnvRecon\<lparr>environmentReconcile.reconcileId := 3,
                         environmentReconcile.status := ''skipped_reconcile''\<rparr>,
         exampleEnvRecon\<lparr>environmentReconcile.reconcileId := 4\<rparr>,
         exampleEnvRecon\<lparr>environmentReconcile.reconcileId := 5,
                         environmentReconcile.envId := 2\<rparr>],
      compReconRepo =
        [exampleCompRecon,
         exampleCompRecon\<lparr>componentReconcile.reconcileId := 2,
                          componentReconcile.status := ''running'',
                          componentReconcile.endDateTime := None\<rparr>,
         exampleCompRecon\<lparr>componentReconcile.reconcileId := 3,
                          componentReconcile.status := ''skipped_reconcile'',
                          componentReconcile.endDateTime := None\<rparr>,
         exampleCompRecon\<lparr>componentReconcile.reconcileId := 4,
                          componentReconcile.status := ''waiting_for_parent'',
                          componentReconcile.endDateTime := None\<rparr>,
         exampleCompRecon\<lparr>componentReconcile.reconcileId := 5,
                          componentReconcile.compId := Some 3,
                          componentReconcile.status := ''running'',
                          componentReconcile.endDateTime := None\<rparr>],
      nextEnvReconId = 6, nextCompReconId = 6\<rparr>"

text \<open>
  The environment of the cost example, loaded with its components and their latest
  reconciliations, costs 10, -5, 0 and 7.5. Its latest environment reconciliation carries a snapshot of a child
  that is older than the stored child.
\<close>

definition exampleCostEnv :: "unit environment" where
  "exampleCostEnv =
     exampleEnv
       \<lparr>environment.components :=
          [\<lparr>component.id = 1, name = ''network'', isDeleted = False, envId = 1,
            latestCompRecon = Some (exampleCompRecon\<lparr>componentReconcile.estimatedCost := 10\<rparr>)\<rparr>,
           \<lparr>component.id = 3, name = ''database'', isDeleted = False, envId = 1,
            latestCompRecon = Some (exampleCompRecon\<lparr>componentReconcile.estimatedCost := - 5\<rparr>)\<rparr>,
           \<lparr>component.id = 4, name = ''service'', isDeleted = False, envId = 1,
            latestCompRecon = Some (exampleCompRecon\<lparr>componentReconcile.estimatedCost := 0\<rparr>)\<rparr>,
           \<lparr>component.id = 5, name = ''cache'', isDeleted = False, envId = 1,
            latestCompRecon = Some (exampleCompRecon\<lparr>componentReconcile.estimatedCost := 7.5\<rparr>)\<rparr>],
        latestEnvRecon :=
          Some (environmentReconcile.extend (exampleEnvRecon\<lparr>environmentReconcile.reconcileId := 4\<rparr>)
                  (envReconEntity.fields
                     (Some [exampleCompRecon\<lparr>componentReconcile.reconcileId := 2,
                                              componentReconcile.status := ''initializing'',
                                              componentReconcile.endDateTime := None\<rparr>])))\<rparr>"

text \<open>
  The runs of the latest-run example: \<^verbatim>\<open>skipped_timeout\<close>, \<^verbatim>\<open>waiting_for_parent\<close>,
  \<^verbatim>\<open>succeeded\<close> and \<^verbatim>\<open>failed\<close>, started at the four given times.
\<close>

definition exampleRuns :: "datetime \<Rightarrow> datetime \<Rightarrow> datetime \<Rightarrow> datetime \<Rightarrow> componentReconcile list" where
  "exampleRuns t1 t2 t3 t4 =
     [exampleCompRecon\<lparr>componentReconcile.reconcileId := 1,
                       componentReconcile.status := ''skipped_timeout'',
                       componentReconcile.startDateTime := Some t1\<rparr>,
      exampleCompRecon\<lparr>componentReconcile.reconcileId := 2,
                       componentReconcile.status := ''waiting_for_parent'',
                       componentReconcile.startDateTime := Some t2\<rparr>,
      exampleCompRecon\<lparr>componentReconcile.reconcileId := 3,
                       componentReconcile.status := ''succeeded'',
                       componentReconcile.startDateTime := Some t3\<rparr>,
      exampleCompRecon\<lparr>componentReconcile.reconcileId := 4,
                       componentReconcile.status := ''failed'',
                       componentReconcile.startDateTime := Some t4\<rparr>]"

text \<open>
  A store whose only run has a status written in upper case.
\<close>

definition exampleUpperCaseStore :: "unit store" where
  "exampleUpperCaseStore =
     exampleStore
       \<lparr>compReconRepo :=
          [exampleCompRecon\<lparr>componentReconcile.status := ''SKIPPED_manual''\<rparr>]\<rparr>"

section \<open>Properties of the diff\<close>

lemma find_name_None:
  "(find (\<lambda>x. f x = a) xs = None) = (a \<notin> f ` set xs)"
  by (auto simp: find_None_iff)

lemma find_name_None':
  "(find (\<lambda>x. a = f x) xs = None) = (a \<notin> f ` set xs)"
  by (auto simp: find_None_iff)

lemma diffLoop_acc:
  "diffLoop cs incoming (ms, es) =
     (ms @ filter (\<lambda>c. component.name c \<notin> envSpecComponentDto.name ` set incoming) cs,
      es @ List.map_filter (\<lambda>c. find (\<lambda>i. component.name c = envSpecComponentDto.name i) incoming) cs)"
proof (induction cs arbitrary: ms es)
  case Nil
  show ?case by (simp add: List.map_filter_simps)
next
  case (Cons c cs)
  show ?case
  proof (cases "find (\<lambda>i. component.name c = envSpecComponentDto.name i) incoming")
    case None
    then have "component.name c \<notin> envSpecComponentDto.name ` set incoming"
      by (simp add: find_name_None')
    with None Cons show ?thesis by (simp add: List.map_filter_simps)
  next
    case (Some found)
    then have "component.name c \<in> envSpecComponentDto.name ` set incoming"
      using find_name_None' [of "component.name c" envSpecComponentDto.name incoming] by simp
    with Some Cons show ?thesis by (simp add: List.map_filter_simps)
  qed
qed

lemma find_Some_name:
  "find (\<lambda>i. a = envSpecComponentDto.name i) incoming = Some found \<Longrightarrow>
   envSpecComponentDto.name found = a \<and> found \<in> set incoming"
  by (auto simp: find_Some_iff)

lemma existing_names:
  "map envSpecComponentDto.name
     (List.map_filter (\<lambda>c. find (\<lambda>i. component.name c = envSpecComponentDto.name i) incoming) cs) =
   filter (\<lambda>n. n \<in> envSpecComponentDto.name ` set incoming) (map component.name cs)"
proof (induction cs)
  case Nil
  show ?case by (simp add: List.map_filter_simps)
next
  case (Cons c cs)
  show ?case
  proof (cases "find (\<lambda>i. component.name c = envSpecComponentDto.name i) incoming")
    case None
    then have "component.name c \<notin> envSpecComponentDto.name ` set incoming"
      by (simp add: find_name_None')
    with None Cons show ?thesis by (simp add: List.map_filter_simps)
  next
    case (Some found)
    then have "envSpecComponentDto.name found = component.name c" and "found \<in> set incoming"
      using find_Some_name by fastforce+
    moreover from this have "component.name c \<in> envSpecComponentDto.name ` set incoming"
      by force
    ultimately show ?thesis using Some Cons by (simp add: List.map_filter_simps)
  qed
qed

lemma newComponents_filter:
  "newComponents currentComps incoming =
     filter (\<lambda>inc. envSpecComponentDto.name inc \<notin> component.name ` set currentComps) incoming"
  by (simp add: newComponents_def find_name_None)

lemma missingComponents_filter:
  "missingComponents currentComps incoming =
     filter (\<lambda>c. component.name c \<notin> envSpecComponentDto.name ` set incoming) currentComps"
  by (simp add: missingComponents_def diffLoop_acc)

lemma existingComponents_map_filter:
  "existingComponents currentComps incoming =
     List.map_filter (\<lambda>c. find (\<lambda>i. component.name c = envSpecComponentDto.name i) incoming)
       currentComps"
  by (simp add: existingComponents_def diffLoop_acc)

lemma mergedDag_names:
  "map envSpecComponentDto.name (mergedDag currentComps incoming) =
     filter (\<lambda>n. n \<in> envSpecComponentDto.name ` set incoming) (map component.name currentComps) @
     filter (\<lambda>n. n \<notin> component.name ` set currentComps) (map envSpecComponentDto.name incoming)"
  by (simp add: mergedDag_def existingComponents_map_filter existing_names newComponents_filter
      filter_map comp_def)

lemma mergedDag_name_set:
  "envSpecComponentDto.name ` set (mergedDag currentComps incoming) =
     envSpecComponentDto.name ` set incoming"
proof -
  have "set (map envSpecComponentDto.name (mergedDag currentComps incoming)) =
        envSpecComponentDto.name ` set incoming"
    unfolding mergedDag_names by auto
  then show ?thesis by simp
qed

lemma applied_plan_names:
  "map component.name
     (filter (\<lambda>c. component.name c \<in> envSpecComponentDto.name ` set incoming) currentComps) @
   map envSpecComponentDto.name (newComponents currentComps incoming) =
   map envSpecComponentDto.name (mergedDag currentComps incoming)"
  by (simp add: mergedDag_names newComponents_filter filter_map comp_def)

lemma diff_example:
  "newComponents
     [\<lparr>component.id = 1, name = ''b'', isDeleted = False, envId = 1, latestCompRecon = None\<rparr>,
      \<lparr>component.id = 2, name = ''a'', isDeleted = False, envId = 1, latestCompRecon = None\<rparr>]
     [\<lparr>envSpecComponentDto.name = ''a'', config = ()\<rparr>,
      \<lparr>envSpecComponentDto.name = ''c'', config = ()\<rparr>] =
   [\<lparr>envSpecComponentDto.name = ''c'', config = ()\<rparr>]"
  "missingComponents
     [\<lparr>component.id = 1, name = ''b'', isDeleted = False, envId = 1, latestCompRecon = None\<rparr>,
      \<lparr>component.id = 2, name = ''a'', isDeleted = False, envId = 1, latestCompRecon = None\<rparr>]
     [\<lparr>envSpecComponentDto.name = ''a'', config = ()\<rparr>,
      \<lparr>envSpecComponentDto.name = ''c'', config = ()\<rparr>] =
   [\<lparr>component.id = 1, name = ''b'', isDeleted = False, envId = 1, latestCompRecon = None\<rparr>]"
  "mergedDag
     [\<lparr>component.id = 1, name = ''b'', isDeleted = False, envId = 1, latestCompRecon = None\<rparr>,
      \<lparr>component.id = 2, name = ''a'', isDeleted = False, envId = 1, latestCompRecon = None\<rparr>]
     [\<lparr>envSpecComponentDto.name = ''a'', config = ()\<rparr>,
      \<lparr>envSpecComponentDto.name = ''c'', config = ()\<rparr>] =
   [\<lparr>envSpecComponentDto.name = ''a'', config = ()\<rparr>,
    \<lparr>envSpecComponentDto.name = ''c'', config = ()\<rparr>]"
  by (simp_all add: newComponents_def missingComponents_def mergedDag_def existingComponents_def)

text \<open>
  C1. The diff of \<^verbatim>\<open>saveOrUpdate\<close>: the components to create are the incoming specs whose
  name no current component has, in incoming order; the components to delete are the
  current components whose name no incoming spec has, in stored order; the merged dag is
  the incoming spec found for each matched current component, in stored order, followed
  by the components to create, so its names are the matched current names in stored
  order followed by the new names in incoming order. For current \<open>[b, a]\<close> and incoming
  \<open>[a, c]\<close> this gives create \<open>[c]\<close>, delete \<open>[b]\<close> and merged dag \<open>[a, c]\<close>.
\<close>

theorem C1_diff_plan:
  "newComponents currentComps incoming =
     filter (\<lambda>inc. envSpecComponentDto.name inc \<notin> component.name ` set currentComps) incoming
   \<and> missingComponents currentComps incoming =
     filter (\<lambda>c. component.name c \<notin> envSpecComponentDto.name ` set incoming) currentComps
   \<and> mergedDag currentComps incoming =
     List.map_filter (\<lambda>c. find (\<lambda>i. component.name c = envSpecComponentDto.name i) incoming)
       currentComps @ newComponents currentComps incoming
   \<and> map envSpecComponentDto.name (mergedDag currentComps incoming) =
     filter (\<lambda>n. n \<in> envSpecComponentDto.name ` set incoming) (map component.name currentComps) @
     filter (\<lambda>n. n \<notin> component.name ` set currentComps) (map envSpecComponentDto.name incoming)
   \<and> newComponents
     [\<lparr>component.id = 1, name = ''b'', isDeleted = False, envId = 1, latestCompRecon = None\<rparr>,
      \<lparr>component.id = 2, name = ''a'', isDeleted = False, envId = 1, latestCompRecon = None\<rparr>]
     [\<lparr>envSpecComponentDto.name = ''a'', config = ()\<rparr>,
      \<lparr>envSpecComponentDto.name = ''c'', config = ()\<rparr>] =
     [\<lparr>envSpecComponentDto.name = ''c'', config = ()\<rparr>]
   \<and> missingComponents
     [\<lparr>component.id = 1, name = ''b'', isDeleted = False, envId = 1, latestCompRecon = None\<rparr>,
      \<lparr>component.id = 2, name = ''a'', isDeleted = False, envId = 1, latestCompRecon = None\<rparr>]
     [\<lparr>envSpecComponentDto.name = ''a'', config = ()\<rparr>,
      \<lparr>envSpecComponentDto.name = ''c'', config = ()\<rparr>] =
     [\<lparr>component.id = 1, name = ''b'', isDeleted = False, envId = 1, latestCompRecon = None\<rparr>]
   \<and> mergedDag
     [\<lparr>component.id = 1, name = ''b'', isDeleted = False, envId = 1, latestCompRecon = None\<rparr>,
      \<lparr>component.id = 2, name = ''a'', isDeleted = False, envId = 1, latestCompRecon = None\<rparr>]
     [\<lparr>envSpecComponentDto.name = ''a'', config = ()\<rparr>,
      \<lparr>envSpecComponentDto.name = ''c'', config = ()\<rparr>] =
     [\<lparr>envSpecComponentDto.name = ''a'', config = ()\<rparr>,
      \<lparr>envSpecComponentDto.name = ''c'', config = ()\<rparr>]"
proof (intro conjI)
  show "newComponents currentComps incoming =
     filter (\<lambda>inc. envSpecComponentDto.name inc \<notin> component.name ` set currentComps) incoming"
    by (rule newComponents_filter)
  show "missingComponents currentComps incoming =
     filter (\<lambda>c. component.name c \<notin> envSpecComponentDto.name ` set incoming) currentComps"
    by (rule missingComponents_filter)
  show "mergedDag currentComps incoming =
     List.map_filter (\<lambda>c. find (\<lambda>i. component.name c = envSpecComponentDto.name i) incoming)
       currentComps @ newComponents currentComps incoming"
    by (simp add: mergedDag_def existingComponents_map_filter)
  show "map envSpecComponentDto.name (mergedDag currentComps incoming) =
     filter (\<lambda>n. n \<in> envSpecComponentDto.name ` set incoming) (map component.name currentComps) @
     filter (\<lambda>n. n \<notin> component.name ` set currentComps) (map envSpecComponentDto.name incoming)"
    by (rule mergedDag_names)
qed (rule diff_example)+

text \<open>
  C2. The diff is idempotent: once the first plan is applied, so that the stored
  components carry the names of the merged dag, a second diff against the same incoming
  list has nothing to create and nothing to delete.
\<close>

theorem C2_diff_idempotent:
  assumes "component.name ` set storedComps =
           envSpecComponentDto.name ` set (mergedDag currentComps incoming)"
  shows "newComponents storedComps incoming = [] \<and> missingComponents storedComps incoming = []"
proof -
  from assms have names: "component.name ` set storedComps = envSpecComponentDto.name ` set incoming"
    by (simp add: mergedDag_name_set)
  have "newComponents storedComps incoming = []"
    unfolding newComponents_filter names by (simp add: filter_empty_conv)
  moreover have "missingComponents storedComps incoming = []"
    unfolding missingComponents_filter names [symmetric] by (simp add: filter_empty_conv)
  ultimately show ?thesis by simp
qed

theorem C2_diff_idempotent_witness:
  "component.name `
     set [\<lparr>component.id = 2, name = ''a'', isDeleted = False, envId = 1, latestCompRecon = None\<rparr>,
          \<lparr>component.id = 3, name = ''c'', isDeleted = False, envId = 1, latestCompRecon = None\<rparr>] =
   envSpecComponentDto.name `
     set (mergedDag
       [\<lparr>component.id = 1, name = ''b'', isDeleted = False, envId = 1, latestCompRecon = None\<rparr>,
        \<lparr>component.id = 2, name = ''a'', isDeleted = False, envId = 1, latestCompRecon = None\<rparr>]
       [\<lparr>envSpecComponentDto.name = ''a'', config = ()\<rparr>,
        \<lparr>envSpecComponentDto.name = ''c'', config = ()\<rparr>])
   \<and> newComponents
       [\<lparr>component.id = 2, name = ''a'', isDeleted = False, envId = 1, latestCompRecon = None\<rparr>,
        \<lparr>component.id = 3, name = ''c'', isDeleted = False, envId = 1, latestCompRecon = None\<rparr>]
       [\<lparr>envSpecComponentDto.name = ''a'', config = ()\<rparr>,
        \<lparr>envSpecComponentDto.name = ''c'', config = ()\<rparr>] = []
   \<and> missingComponents
       [\<lparr>component.id = 2, name = ''a'', isDeleted = False, envId = 1, latestCompRecon = None\<rparr>,
        \<lparr>component.id = 3, name = ''c'', isDeleted = False, envId = 1, latestCompRecon = None\<rparr>]
       [\<lparr>envSpecComponentDto.name = ''a'', config = ()\<rparr>,
        \<lparr>envSpecComponentDto.name = ''c'', config = ()\<rparr>] = []"
proof -
  have h: "component.name `
     set [\<lparr>component.id = 2, name = ''a'', isDeleted = False, envId = 1, latestCompRecon = None\<rparr>,
          \<lparr>component.id = 3, name = ''c'', isDeleted = False, envId = 1, latestCompRecon = None\<rparr>] =
   envSpecComponentDto.name `
     set (mergedDag
       [\<lparr>component.id = 1, name = ''b'', isDeleted = False, envId = 1, latestCompRecon = None\<rparr>,
        \<lparr>component.id = 2, name = ''a'', isDeleted = False, envId = 1, latestCompRecon = None\<rparr>]
       [\<lparr>envSpecComponentDto.name = ''a'', config = ()\<rparr>,
        \<lparr>envSpecComponentDto.name = ''c'', config = ()\<rparr>])"
    by (simp add: mergedDag_def existingComponents_def newComponents_def)
  from C2_diff_idempotent [OF h] h show ?thesis by blast
qed

section \<open>Properties of the environment run\<close>

lemma perComponent_compReconRepo:
  "\<exists>new. compReconRepo (snd (perComponent f org envRecon c s)) = compReconRepo s @ new \<and>
         map componentReconcile.compId new =
           (if compReconSaveFails f (component.id c) then [] else [Some (component.id c)]) \<and>
         (\<forall>r\<in>set new. newCompRecon org envRecon r)"
  by (simp add: perComponent_def createCompRecon_def ComponentService_update_def newCompRecon_def Let_def)

lemma perComponent_frame:
  "envReconRepo (snd (perComponent f org envRecon c s)) = envReconRepo s \<and>
   envRepo (snd (perComponent f org envRecon c s)) = envRepo s"
  by (simp add: perComponent_def createCompRecon_def ComponentService_update_def Let_def)


lemma perComponent_compRepo:
  "list_all2 (touched {component.id c}) (compRepo s) (compRepo (snd (perComponent f org envRecon c s)))"
  by (auto simp add: perComponent_def createCompRecon_def ComponentService_update_def Let_def
      list_all2_map2 touched_def list_all2_same)

lemma touched_trans:
  "touched A x y \<Longrightarrow> touched B y z \<Longrightarrow> touched (A \<union> B) x z"
  by (auto simp: touched_def)

lemma list_all2_touched_trans:
  "list_all2 (touched A) xs ys \<Longrightarrow> list_all2 (touched B) ys zs \<Longrightarrow>
   list_all2 (touched (A \<union> B)) xs zs"
  by (erule (1) list_all2_trans [rotated]) (rule touched_trans)

lemma allSettled_Cons_snd:
  "snd (allSettled f org envRecon (c # cs) s) =
     snd (allSettled f org envRecon cs (snd (perComponent f org envRecon c s)))"
  by (simp split: prod.splits)


lemma allSettled_compReconRepo:
  "\<exists>new. compReconRepo (snd (allSettled f org envRecon cs s)) = compReconRepo s @ new \<and>
         map componentReconcile.compId new =
           map (\<lambda>c. Some (component.id c))
             (filter (\<lambda>c. \<not> compReconSaveFails f (component.id c)) cs) \<and>
         (\<forall>r\<in>set new. newCompRecon org envRecon r)"
proof (induction cs arbitrary: s)
  case Nil
  show ?case by simp
next
  case (Cons c cs)
  obtain out s1 where p: "perComponent f org envRecon c s = (out, s1)"
    by (cases "perComponent f org envRecon c s")
  obtain outs s2 where a: "allSettled f org envRecon cs s1 = (outs, s2)"
    by (cases "allSettled f org envRecon cs s1")
  from perComponent_compReconRepo [of f org envRecon c s] p
  obtain n1 where n1: "compReconRepo s1 = compReconRepo s @ n1"
      "map componentReconcile.compId n1 =
         (if compReconSaveFails f (component.id c) then [] else [Some (component.id c)])"
      "\<forall>r\<in>set n1. newCompRecon org envRecon r"
    by auto
  from Cons.IH [of s1] a
  obtain n2 where n2: "compReconRepo s2 = compReconRepo s1 @ n2"
      "map componentReconcile.compId n2 =
         map (\<lambda>c. Some (component.id c))
           (filter (\<lambda>c. \<not> compReconSaveFails f (component.id c)) cs)"
      "\<forall>r\<in>set n2. newCompRecon org envRecon r"
    by auto
  have "compReconRepo (snd (allSettled f org envRecon (c # cs) s)) = compReconRepo s @ (n1 @ n2)"
    using p a n1(1) n2(1) by simp
  moreover have "map componentReconcile.compId (n1 @ n2) =
           map (\<lambda>c. Some (component.id c))
             (filter (\<lambda>c. \<not> compReconSaveFails f (component.id c)) (c # cs))"
    using n1(2) n2(2) by simp
  moreover have "\<forall>r\<in>set (n1 @ n2). newCompRecon org envRecon r"
    using n1(3) n2(3) by auto
  ultimately show ?case by blast
qed

lemma allSettled_frame:
  "envReconRepo (snd (allSettled f org envRecon cs s)) = envReconRepo s \<and>
   envRepo (snd (allSettled f org envRecon cs s)) = envRepo s"
proof (induction cs arbitrary: s)
  case Nil
  show ?case by simp
next
  case (Cons c cs)
  show ?case
    using Cons.IH [of "snd (perComponent f org envRecon c s)"]
      perComponent_frame [of f org envRecon c s]
    by (simp only: allSettled_Cons_snd)
qed


lemma allSettled_compRepo:
  "list_all2 (touched (component.id ` set cs)) (compRepo s)
     (compRepo (snd (allSettled f org envRecon cs s)))"
proof (induction cs arbitrary: s)
  case Nil
  show ?case by (simp add: list_all2_same touched_def)
next
  case (Cons c cs)
  have "list_all2 (touched ({component.id c} \<union> component.id ` set cs)) (compRepo s)
     (compRepo (snd (allSettled f org envRecon cs (snd (perComponent f org envRecon c s)))))"
    by (rule list_all2_touched_trans [OF perComponent_compRepo Cons.IH])
  then show ?case by (simp only: allSettled_Cons_snd list.set image_insert insert_is_Un [symmetric])
qed

lemma touched_filter_deleted:
  assumes "list_all2 (touched ids) xs ys"
    and "\<forall>x\<in>set xs. component.isDeleted x \<longrightarrow> component.id x \<notin> ids"
  shows "filter component.isDeleted ys = filter component.isDeleted xs"
  using assms
proof (induction rule: list_all2_induct)
  case Nil
  show ?case by simp
next
  case (Cons x xs y ys)
  then show ?case by (auto simp: touched_def)
qed

lemma findById_components:
  "findById s org ident = Some e \<Longrightarrow> set (environment.components e) \<subseteq> set (compRepo s)"
  by (auto simp: findById_def)

lemma createEnvRecon_run:
  assumes "\<not> envReconSaveFails f"
    and "findById s org (environment.id env) = Some envWithComps"
  shows "\<exists>envRecon s1.
           createEnvRecon f now s org tm env createEnv =
             (Inr envRecon,
              snd (allSettled f org envRecon
                     (filter (\<lambda>c. \<not> component.isDeleted c) (environment.components envWithComps)) s1)) \<and>
           environmentReconcile.status envRecon = ''initializing'' \<and>
           environmentReconcile.startDateTime envRecon = Some now \<and>
           envReconRepo s1 = envReconRepo s @ [envRecon] \<and>
           compReconRepo s1 = compReconRepo s \<and>
           compRepo s1 = compRepo s"
proof -
  have same: "findById (s\<lparr>envReconRepo := rows, nextEnvReconId := n\<rparr>) org ident = findById s org ident"
    for rows n ident
    by (simp add: findById_def)
  show ?thesis
    using assms
    apply (simp add: createEnvRecon_def ReconciliationService_createEnvRecon_def Let_def same)
    apply (intro exI conjI)
       apply (rule refl)
      apply simp_all
    done
qed

lemma createEnvRecon_Inr:
  assumes "createEnvRecon f now s org tm env createEnv = (Inr envRecon, s')"
  shows "\<not> envReconSaveFails f \<and> (\<exists>e. findById s org (environment.id env) = Some e)"
proof -
  have same: "findById (s\<lparr>envReconRepo := rows, nextEnvReconId := n\<rparr>) org ident = findById s org ident"
    for rows n ident
    by (simp add: findById_def)
  show ?thesis
    using assms
    by (auto simp add: createEnvRecon_def ReconciliationService_createEnvRecon_def Let_def same
        split: if_splits option.splits)
qed

lemma createEnvRecon_records:
  assumes "\<not> envReconSaveFails f"
    and "findById s org (environment.id env) = Some envWithComps"
  shows "\<exists>envRecon s' new.
           createEnvRecon f now s org tm env createEnv = (Inr envRecon, s') \<and>
           environmentReconcile.status envRecon = ''initializing'' \<and>
           envReconRepo s' = envReconRepo s @ [envRecon] \<and>
           compReconRepo s' = compReconRepo s @ new \<and>
           map componentReconcile.compId new =
             map (\<lambda>c. Some (component.id c))
               (filter (\<lambda>c. \<not> compReconSaveFails f (component.id c))
                  (filter (\<lambda>c. \<not> component.isDeleted c) (environment.components envWithComps))) \<and>
           (\<forall>r\<in>set new. newCompRecon org envRecon r) \<and>
           list_all2
             (touched (component.id `
                set (filter (\<lambda>c. \<not> component.isDeleted c) (environment.components envWithComps))))
             (compRepo s) (compRepo s')"
proof -
  let ?live = "filter (\<lambda>c. \<not> component.isDeleted c) (environment.components envWithComps)"
  from createEnvRecon_run [OF assms, of now tm createEnv]
  obtain envRecon s1 where run:
    "createEnvRecon f now s org tm env createEnv =
       (Inr envRecon, snd (allSettled f org envRecon ?live s1))"
    "environmentReconcile.status envRecon = ''initializing''"
    "envReconRepo s1 = envReconRepo s @ [envRecon]"
    "compReconRepo s1 = compReconRepo s"
    "compRepo s1 = compRepo s"
    by blast
  let ?s' = "snd (allSettled f org envRecon ?live s1)"
  from allSettled_compReconRepo [of f org envRecon ?live s1]
  obtain new where new:
    "compReconRepo ?s' = compReconRepo s1 @ new"
    "map componentReconcile.compId new =
       map (\<lambda>c. Some (component.id c))
         (filter (\<lambda>c. \<not> compReconSaveFails f (component.id c)) ?live)"
    "\<forall>r\<in>set new. newCompRecon org envRecon r"
    by blast
  have "envReconRepo ?s' = envReconRepo s @ [envRecon]"
    using allSettled_frame [of f org envRecon ?live s1] run(3) by simp
  moreover have "compReconRepo ?s' = compReconRepo s @ new"
    using new(1) run(4) by simp
  moreover have "list_all2 (touched (component.id ` set ?live)) (compRepo s) (compRepo ?s')"
    using allSettled_compRepo [of ?live s1 f org envRecon] run(5) by simp
  ultimately show ?thesis
    using run(1,2) new(2,3) by blast
qed

lemma deleted_not_live:
  assumes "distinct (map component.id xs)" and "set ys \<subseteq> set xs"
    and "x \<in> set xs" and "component.isDeleted x"
  shows "component.id x \<notin> component.id ` set (filter (\<lambda>c. \<not> component.isDeleted c) ys)"
proof
  assume "component.id x \<in> component.id ` set (filter (\<lambda>c. \<not> component.isDeleted c) ys)"
  then obtain y where y: "y \<in> set ys" "\<not> component.isDeleted y" "component.id x = component.id y"
    by auto
  from assms(1) have "inj_on component.id (set xs)" by (simp add: distinct_map)
  with y(1,3) assms(2,3) have "x = y" by (auto dest: inj_onD)
  with y(2) assms(4) show False by simp
qed

text \<open>
  C3. When the store accepts the writes, starting an environment run stores one new
  environment reconciliation with status \<^verbatim>\<open>initializing\<close>, and one new component
  reconciliation for each live component of the environment, each
  \<^verbatim>\<open>waiting_for_parent\<close> and linked to the new environment reconciliation. No record
  is created for a soft-deleted component, and the soft-deleted components of the store
  are as they were.
\<close>

theorem C3_environment_run_records:
  assumes "\<not> envReconSaveFails f"
    and "findById s org (environment.id env) = Some envWithComps"
    and "\<forall>c\<in>set (environment.components envWithComps).
           \<not> component.isDeleted c \<longrightarrow> \<not> compReconSaveFails f (component.id c)"
    and "distinct (map component.id (compRepo s))"
  shows "\<exists>envRecon s' new.
           createEnvRecon f now s org tm env createEnv = (Inr envRecon, s') \<and>
           environmentReconcile.status envRecon = ''initializing'' \<and>
           envReconRepo s' = envReconRepo s @ [envRecon] \<and>
           compReconRepo s' = compReconRepo s @ new \<and>
           map componentReconcile.compId new =
             map (\<lambda>c. Some (component.id c))
               (filter (\<lambda>c. \<not> component.isDeleted c) (environment.components envWithComps)) \<and>
           (\<forall>r\<in>set new. componentReconcile.status r = ''waiting_for_parent'' \<and>
                         componentReconcile.envReconId r = environmentReconcile.reconcileId envRecon) \<and>
           (\<forall>c\<in>set (environment.components envWithComps).
              component.isDeleted c \<longrightarrow> Some (component.id c) \<notin> componentReconcile.compId ` set new) \<and>
           filter component.isDeleted (compRepo s') = filter component.isDeleted (compRepo s)"
proof -
  let ?live = "filter (\<lambda>c. \<not> component.isDeleted c) (environment.components envWithComps)"
  from createEnvRecon_records [OF assms(1,2), of now tm createEnv]
  obtain envRecon s' new where r:
    "createEnvRecon f now s org tm env createEnv = (Inr envRecon, s')"
    "environmentReconcile.status envRecon = ''initializing''"
    "envReconRepo s' = envReconRepo s @ [envRecon]"
    "compReconRepo s' = compReconRepo s @ new"
    "map componentReconcile.compId new =
       map (\<lambda>c. Some (component.id c))
         (filter (\<lambda>c. \<not> compReconSaveFails f (component.id c)) ?live)"
    "\<forall>r\<in>set new. newCompRecon org envRecon r"
    "list_all2 (touched (component.id ` set ?live)) (compRepo s) (compRepo s')"
    by blast
  from assms(3) have all: "filter (\<lambda>c. \<not> compReconSaveFails f (component.id c)) ?live = ?live"
    by (auto intro: filter_cong)
  have sub: "set (environment.components envWithComps) \<subseteq> set (compRepo s)"
    by (rule findById_components [OF assms(2)])
  have ids: "map componentReconcile.compId new = map (\<lambda>c. Some (component.id c)) ?live"
    using r(5) all by simp
  have st: "\<forall>r\<in>set new. componentReconcile.status r = ''waiting_for_parent'' \<and>
              componentReconcile.envReconId r = environmentReconcile.reconcileId envRecon"
    using r(6) by (simp add: newCompRecon_def)
  have del: "\<forall>c\<in>set (environment.components envWithComps).
      component.isDeleted c \<longrightarrow> Some (component.id c) \<notin> componentReconcile.compId ` set new"
  proof (intro ballI impI)
    fix c assume c: "c \<in> set (environment.components envWithComps)" "component.isDeleted c"
    with sub have "c \<in> set (compRepo s)" by auto
    from deleted_not_live [OF assms(4) sub this c(2)]
    have "component.id c \<notin> component.id ` set ?live" .
    moreover have "componentReconcile.compId ` set new = (\<lambda>c. Some (component.id c)) ` set ?live"
      using arg_cong [OF ids, of set] by simp
    ultimately show "Some (component.id c) \<notin> componentReconcile.compId ` set new" by auto
  qed
  have "\<forall>x\<in>set (compRepo s). component.isDeleted x \<longrightarrow> component.id x \<notin> component.id ` set ?live"
    using deleted_not_live [OF assms(4) sub] by blast
  from touched_filter_deleted [OF r(7) this]
  have "filter component.isDeleted (compRepo s') = filter component.isDeleted (compRepo s)" .
  with r(1,2,3,4) ids st del show ?thesis by blast
qed

theorem C3_environment_run_records_witness:
  "\<exists>envRecon s' new.
     createEnvRecon noFaults 100 exampleStore exampleOrg exampleTeam exampleEnv
       \<lparr>createEnvironmentDto.name = ''prod'', dag = []\<rparr> = (Inr envRecon, s') \<and>
     environmentReconcile.status envRecon = ''initializing'' \<and>
     compReconRepo s' = new \<and>
     length new = 3 \<and>
     map componentReconcile.compId new = [Some 1, Some 3, Some 4] \<and>
     (\<forall>r\<in>set new. componentReconcile.status r = ''waiting_for_parent'' \<and>
                   componentReconcile.envReconId r = environmentReconcile.reconcileId envRecon) \<and>
     filter component.isDeleted (compRepo s') =
       [\<lparr>component.id = 2, name = ''legacy'', isDeleted = True, envId = 1, latestCompRecon = None\<rparr>]"
proof -
  have h1: "\<not> envReconSaveFails noFaults"
    by (simp add: noFaults_def)
  have h2: "findById exampleStore exampleOrg (environment.id exampleEnv) =
              Some (exampleEnv\<lparr>environment.components := exampleComponents\<rparr>)"
    by (simp add: findById_def exampleStore_def exampleOrg_def exampleEnv_def exampleComponents_def)
  have h3: "\<forall>c\<in>set (environment.components (exampleEnv\<lparr>environment.components := exampleComponents\<rparr>)).
              \<not> component.isDeleted c \<longrightarrow> \<not> compReconSaveFails noFaults (component.id c)"
    by (simp add: noFaults_def)
  have h4: "distinct (map component.id (compRepo exampleStore))"
    by (simp add: exampleStore_def exampleComponents_def)
  from C3_environment_run_records [OF h1 h2 h3 h4, of 100 exampleTeam
      "\<lparr>createEnvironmentDto.name = ''prod'', dag = []\<rparr>"]
  obtain envRecon s' new where r0:
    "createEnvRecon noFaults 100 exampleStore exampleOrg exampleTeam exampleEnv
       \<lparr>createEnvironmentDto.name = ''prod'', dag = []\<rparr> = (Inr envRecon, s') \<and>
     environmentReconcile.status envRecon = ''initializing'' \<and>
     envReconRepo s' = envReconRepo exampleStore @ [envRecon] \<and>
     compReconRepo s' = compReconRepo exampleStore @ new \<and>
     map componentReconcile.compId new =
       map (\<lambda>c. Some (component.id c))
         (filter (\<lambda>c. \<not> component.isDeleted c)
            (environment.components (exampleEnv\<lparr>environment.components := exampleComponents\<rparr>))) \<and>
     (\<forall>r\<in>set new. componentReconcile.status r = ''waiting_for_parent'' \<and>
                   componentReconcile.envReconId r = environmentReconcile.reconcileId envRecon) \<and>
     (\<forall>c\<in>set (environment.components (exampleEnv\<lparr>environment.components := exampleComponents\<rparr>)).
        component.isDeleted c \<longrightarrow> Some (component.id c) \<notin> componentReconcile.compId ` set new) \<and>
     filter component.isDeleted (compRepo s') = filter component.isDeleted (compRepo exampleStore)"
    by (elim exE) (rule that)
  note r = r0 [THEN conjunct1] r0 [THEN conjunct2, THEN conjunct1]
    r0 [THEN conjunct2, THEN conjunct2, THEN conjunct2, THEN conjunct1]
    r0 [THEN conjunct2, THEN conjunct2, THEN conjunct2, THEN conjunct2, THEN conjunct1]
    r0 [THEN conjunct2, THEN conjunct2, THEN conjunct2, THEN conjunct2, THEN conjunct2, THEN conjunct1]
    r0 [THEN conjunct2, THEN conjunct2, THEN conjunct2, THEN conjunct2, THEN conjunct2, THEN conjunct2,
      THEN conjunct2]
  have ids: "map componentReconcile.compId new = [Some 1, Some 3, Some 4]"
    using r(4) by (simp add: exampleComponents_def)
  have "length (map componentReconcile.compId new) = 3"
    unfolding ids by simp
  then have len: "length new = 3" by simp
  have repo: "compReconRepo s' = new"
    using r(3) by (simp add: exampleStore_def)
  have del: "filter component.isDeleted (compRepo s') =
       [\<lparr>component.id = 2, name = ''legacy'', isDeleted = True, envId = 1, latestCompRecon = None\<rparr>]"
    using r(6) by (simp add: exampleStore_def exampleComponents_def)
  show ?thesis
    by (intro exI conjI) (rule r(1) r(2) repo len ids r(5) del)+
qed

lemma createEnvRecon_Inr_ex:
  assumes "\<not> envReconSaveFails f"
    and "findById s org (environment.id env) = Some envWithComps"
  shows "\<exists>envRecon s'. createEnvRecon f now s org tm env createEnv = (Inr envRecon, s')"
  using createEnvRecon_run [OF assms, of now tm createEnv] by blast



text \<open>
  C10. A component reconciliation created by the environment run has no start time:
  \<^verbatim>\<open>createCompRecon\<close> stores the \<^verbatim>\<open>startDateTime\<close> of its DTO as it is, and the DTO the
  controller builds for each component has none, so every record a run adds to the
  store has none.
\<close>

theorem C10_run_records_have_no_start_time:
  "(createCompRecon f s org envRecon cmp createComp = (Inr saved, s1) \<longrightarrow>
      componentReconcile.startDateTime saved =
        createComponentReconciliationDto.startDateTime createComp \<and>
      compReconRepo s1 = compReconRepo s @ [saved]) \<and>
   (createEnvRecon f now s org tm env createEnv = (Inr created, s') \<longrightarrow>
      (\<exists>envWithComps new.
         findById s org (environment.id env) = Some envWithComps \<and>
         compReconRepo s' = compReconRepo s @ new \<and>
         map componentReconcile.compId new =
           map (\<lambda>c. Some (component.id c))
             (filter (\<lambda>c. \<not> compReconSaveFails f (component.id c))
                (filter (\<lambda>c. \<not> component.isDeleted c) (environment.components envWithComps))) \<and>
         (\<forall>r\<in>set new. componentReconcile.startDateTime r = None)))"
proof -
  have verbatim: "componentReconcile.startDateTime saved =
        createComponentReconciliationDto.startDateTime createComp \<and>
      compReconRepo s1 = compReconRepo s @ [saved]"
    if "createCompRecon f s org envRecon cmp createComp = (Inr saved, s1)"
    using that by (auto simp: createCompRecon_def Let_def split: if_splits)
  have fanOut: "\<exists>envWithComps new.
         findById s org (environment.id env) = Some envWithComps \<and>
         compReconRepo s' = compReconRepo s @ new \<and>
         map componentReconcile.compId new =
           map (\<lambda>c. Some (component.id c))
             (filter (\<lambda>c. \<not> compReconSaveFails f (component.id c))
                (filter (\<lambda>c. \<not> component.isDeleted c) (environment.components envWithComps))) \<and>
         (\<forall>r\<in>set new. componentReconcile.startDateTime r = None)"
    if run: "createEnvRecon f now s org tm env createEnv = (Inr created, s')"
  proof -
    from createEnvRecon_Inr [OF run]
    obtain e where ok: "\<not> envReconSaveFails f" and e: "findById s org (environment.id env) = Some e"
      by blast
    from createEnvRecon_records [OF ok e, of now tm createEnv] run
    obtain new where r:
      "compReconRepo s' = compReconRepo s @ new"
      "map componentReconcile.compId new =
         map (\<lambda>c. Some (component.id c))
           (filter (\<lambda>c. \<not> compReconSaveFails f (component.id c))
              (filter (\<lambda>c. \<not> component.isDeleted c) (environment.components e)))"
      "\<forall>r\<in>set new. newCompRecon org created r"
      by auto
    have "\<forall>r\<in>set new. componentReconcile.startDateTime r = None"
      using r(3) by (simp add: newCompRecon_def)
    with e r(1,2) show ?thesis by blast
  qed
  from verbatim fanOut show ?thesis by blast
qed

theorem C10_run_records_have_no_start_time_witness:
  "(\<exists>saved s1.
      createCompRecon noFaults exampleStore exampleOrg exampleEnvRecon
        \<lparr>component.id = 1, name = ''network'', isDeleted = False, envId = 1, latestCompRecon = None\<rparr>
        \<lparr>createComponentReconciliationDto.status = Some ''running'', name = ''network'',
         envReconcileId = 1, startDateTime = Some 7\<rparr> = (Inr saved, s1) \<and>
      componentReconcile.startDateTime saved = Some 7) \<and>
   (\<exists>created s' new.
      createEnvRecon noFaults 100 exampleStore exampleOrg exampleTeam exampleEnv
        \<lparr>createEnvironmentDto.name = ''prod'', dag = []\<rparr> = (Inr created, s') \<and>
      compReconRepo s' = new \<and>
      map componentReconcile.compId new = [Some 1, Some 3, Some 4] \<and>
      (\<forall>r\<in>set new. componentReconcile.startDateTime r = None))"
proof -
  let ?c = "\<lparr>component.id = 1, name = ''network'', isDeleted = False, envId = 1, latestCompRecon = None\<rparr>"
  let ?dto = "\<lparr>createComponentReconciliationDto.status = Some ''running'', name = ''network'',
         envReconcileId = 1, startDateTime = Some 7\<rparr>"
  let ?createEnv = "\<lparr>createEnvironmentDto.name = ''prod'', dag = ([] :: unit envSpecComponentDto list)\<rparr>"
  have "\<exists>saved s1. createCompRecon noFaults exampleStore exampleOrg exampleEnvRecon ?c ?dto = (Inr saved, s1)"
    by (simp add: createCompRecon_def noFaults_def Let_def)
  then obtain saved s1 where
    one: "createCompRecon noFaults exampleStore exampleOrg exampleEnvRecon ?c ?dto = (Inr saved, s1)"
    by (elim exE) (rule that)
  from C10_run_records_have_no_start_time
    [THEN conjunct1, THEN mp, OF one]
  have "componentReconcile.startDateTime saved = Some 7" by simp
  with one have first: "\<exists>saved s1.
      createCompRecon noFaults exampleStore exampleOrg exampleEnvRecon ?c ?dto = (Inr saved, s1) \<and>
      componentReconcile.startDateTime saved = Some 7"
    by (intro exI conjI)
  have h1: "\<not> envReconSaveFails noFaults"
    by (simp add: noFaults_def)
  have h2: "findById exampleStore exampleOrg (environment.id exampleEnv) =
              Some (exampleEnv\<lparr>environment.components := exampleComponents\<rparr>)"
    by (simp add: findById_def exampleStore_def exampleOrg_def exampleEnv_def exampleComponents_def)
  from createEnvRecon_Inr_ex [OF h1 h2, of 100 exampleTeam ?createEnv]
  obtain created s' where
    run: "createEnvRecon noFaults 100 exampleStore exampleOrg exampleTeam exampleEnv ?createEnv =
            (Inr created, s')"
    by (elim exE) (rule that)
  from C10_run_records_have_no_start_time
    [THEN conjunct2, THEN mp, of noFaults 100 exampleStore exampleOrg exampleTeam exampleEnv ?createEnv
      created s', OF run]
  obtain e new where r0:
    "findById exampleStore exampleOrg (environment.id exampleEnv) = Some e \<and>
     compReconRepo s' = compReconRepo exampleStore @ new \<and>
     map componentReconcile.compId new =
       map (\<lambda>c. Some (component.id c))
         (filter (\<lambda>c. \<not> compReconSaveFails noFaults (component.id c))
            (filter (\<lambda>c. \<not> component.isDeleted c) (environment.components e))) \<and>
     (\<forall>r\<in>set new. componentReconcile.startDateTime r = None)"
    by (elim exE) (rule that)
  note r = r0 [THEN conjunct1] r0 [THEN conjunct2, THEN conjunct1]
    r0 [THEN conjunct2, THEN conjunct2, THEN conjunct1]
    r0 [THEN conjunct2, THEN conjunct2, THEN conjunct2]
  from r(1) h2 have e: "e = exampleEnv\<lparr>environment.components := exampleComponents\<rparr>" by simp
  have ids: "map componentReconcile.compId new = [Some 1, Some 3, Some 4]"
    using r(3) unfolding e by (simp add: exampleComponents_def noFaults_def)
  have repo: "compReconRepo s' = new"
    using r(2) by (simp add: exampleStore_def)
  have second: "\<exists>created s' new.
      createEnvRecon noFaults 100 exampleStore exampleOrg exampleTeam exampleEnv ?createEnv =
        (Inr created, s') \<and>
      compReconRepo s' = new \<and>
      map componentReconcile.compId new = [Some 1, Some 3, Some 4] \<and>
      (\<forall>r\<in>set new. componentReconcile.startDateTime r = None)"
    by (intro exI conjI) (rule run repo ids r(4))+
  from first second show ?thesis by (rule conjI)
qed

section \<open>Properties of the sweeper\<close>

lemma truncate_extend_status:
  "environmentReconcile.truncate
     ((environmentReconcile.extend r (envReconEntity.fields None))\<lparr>environmentReconcile.status := st\<rparr>) =
   r\<lparr>environmentReconcile.status := st\<rparr>"
  by (simp add: environmentReconcile.truncate_def environmentReconcile.extend_def
      envReconEntity.fields_def)

lemma extend_sel:
  "environmentReconcile.reconcileId (environmentReconcile.extend r m) = environmentReconcile.reconcileId r"
  "componentReconciles (environmentReconcile.extend r (envReconEntity.fields x)) = x"
  "environmentReconcile.truncate (environmentReconcile.extend r m) = r"
  "environmentReconcile.status (environmentReconcile.extend r m) = environmentReconcile.status r"
  "environmentReconcile.endDateTime (environmentReconcile.extend r m) = environmentReconcile.endDateTime r"
  by (simp_all add: environmentReconcile.truncate_def environmentReconcile.extend_def
      envReconEntity.fields_def)

lemma truncate_sel:
  "environmentReconcile.reconcileId (environmentReconcile.truncate e) = environmentReconcile.reconcileId e"
  by (simp add: environmentReconcile.truncate_def)

lemma saveEnvReconRow_present:
  "environmentReconcile.reconcileId row \<in> environmentReconcile.reconcileId ` set rows \<Longrightarrow>
   saveEnvReconRow rows row =
     map (\<lambda>r. if environmentReconcile.reconcileId r = environmentReconcile.reconcileId row
                then row else r) rows"
  by (auto simp: saveEnvReconRow_def find_None_iff)

lemma saveCompReconRow_present:
  "componentReconcile.reconcileId row \<in> componentReconcile.reconcileId ` set rows \<Longrightarrow>
   saveCompReconRow rows row =
     map (\<lambda>r. if componentReconcile.reconcileId r = componentReconcile.reconcileId row
                then row else r) rows"
  by (auto simp: saveCompReconRow_def find_None_iff)

lemma find_in_image:
  assumes "distinct (map k T)" and "\<And>x. k' (g x) = k x" and "r \<in> set T"
  shows "find (\<lambda>e. k' e = k r) (map g (filter P T)) = (if P r then Some (g r) else None)"
  using assms(1,3)
proof (induction T)
  case Nil
  then show ?case by simp
next
  case (Cons a T)
  show ?case
  proof (cases "a = r")
    case True
    with Cons.prems have "r \<notin> set T" and "k r \<notin> k ` set T" by auto
    then have "\<forall>x\<in>set T. k x \<noteq> k r" by (metis imageI)
    then have "find (\<lambda>e. k' e = k r) (map g (filter P T)) = None"
      by (simp add: find_None_iff assms(2))
    with True show ?thesis by (simp add: assms(2))
  next
    case False
    with Cons.prems have "r \<in> set T" and "k a \<noteq> k r" by auto
    with Cons show ?thesis by (simp add: assms(2))
  qed
qed

lemma foldl_upsert:
  assumes save: "\<And>rows row. save rows row =
             (if find (\<lambda>r. k r = k row) rows = None then rows @ [row]
              else map (\<lambda>r. if k r = k row then row else r) rows)"
    and "distinct (map k E)" and "k ` set E \<subseteq> k ` set T"
  shows "foldl save T E = map (\<lambda>r. case find (\<lambda>e. k e = k r) E of None \<Rightarrow> r | Some e \<Rightarrow> e) T"
  using assms(2,3)
proof (induction E arbitrary: T)
  case Nil
  show ?case by simp
next
  case (Cons e E)
  let ?upd = "\<lambda>r. if k r = k e then e else r"
  from Cons.prems(2) have "k e \<in> k ` set T" by simp
  then have "find (\<lambda>r. k r = k e) T \<noteq> None"
    by (auto simp: find_None_iff)
  then have step: "save T e = map ?upd T" by (simp add: save)
  have keys: "k ` set (map ?upd T) = k ` set T"
    by (auto simp: image_iff) metis+
  from Cons.prems have d: "distinct (map k E)" and sub: "k ` set E \<subseteq> k ` set (map ?upd T)"
    and fresh: "k e \<notin> k ` set E"
    unfolding keys by auto
  from fresh have "\<forall>x\<in>set E. k x \<noteq> k e" by (metis imageI)
  then have none: "find (\<lambda>x. k x = k e) E = None"
    by (simp add: find_None_iff)
  have "foldl save T (e # E) = foldl save (map ?upd T) E"
    by (simp add: step)
  also have "\<dots> = map (\<lambda>r. case find (\<lambda>x. k x = k r) E of None \<Rightarrow> r | Some x \<Rightarrow> x) (map ?upd T)"
    by (rule Cons.IH [OF d sub])
  also have "\<dots> = map (\<lambda>r. case find (\<lambda>x. k x = k r) (e # E) of None \<Rightarrow> r | Some x \<Rightarrow> x) T"
    by (auto simp: none)
  finally show ?case .
qed

lemma foldl_envReconRepo_save:
  assumes "\<forall>e\<in>set E. componentReconciles e = None"
  shows "foldl envReconRepo_save s E =
           s\<lparr>envReconRepo := foldl saveEnvReconRow (envReconRepo s) (map environmentReconcile.truncate E)\<rparr>"
  using assms
proof (induction E arbitrary: s)
  case Nil
  show ?case by simp
next
  case (Cons e E)
  then show ?case by (simp add: envReconRepo_save_def)
qed

lemma foldl_compReconRepo_save:
  "foldl compReconRepo_save s E = s\<lparr>compReconRepo := foldl saveCompReconRow (compReconRepo s) E\<rparr>"
proof (induction E arbitrary: s)
  case Nil
  show ?case by simp
next
  case (Cons e E)
  then show ?case by (simp add: compReconRepo_save_def)
qed

lemma retire_rows:
  assumes save: "\<And>rows row. save rows row =
             (if find (\<lambda>r. k r = k row) rows = None then rows @ [row]
              else map (\<lambda>r. if k r = k row then row else r) rows)"
    and key: "\<And>x. k (g x) = k x"
    and "distinct (map k T)"
  shows "foldl save T (map g (filter P T)) = map (\<lambda>r. if P r then g r else r) T"
proof -
  have d: "distinct (map k (map g (filter P T)))"
    using assms(3) by (simp add: key comp_def distinct_map_filter)
  have sub: "k ` set (map g (filter P T)) \<subseteq> k ` set T"
    by (auto simp: key)
  have "foldl save T (map g (filter P T)) =
          map (\<lambda>r. case find (\<lambda>e. k e = k r) (map g (filter P T)) of None \<Rightarrow> r | Some e \<Rightarrow> e) T"
    by (rule foldl_upsert [OF save d sub])
  also have "\<dots> = map (\<lambda>r. if P r then g r else r) T"
  proof (rule map_cong [OF refl])
    fix r assume "r \<in> set T"
    from find_in_image [of k T k g r P, OF assms(3) key this]
    show "(case find (\<lambda>e. k e = k r) (map g (filter P T)) of None \<Rightarrow> r | Some e \<Rightarrow> e) =
          (if P r then g r else r)"
      by simp
  qed
  finally show ?thesis .
qed

lemma bulkUpdateEnvironmentEntries_getSkipped:
  assumes "distinct (map environmentReconcile.reconcileId (envReconRepo s))"
  shows "bulkUpdateEnvironmentEntries s (getSkippedEnvironments s org tm env keep) st =
           s\<lparr>envReconRepo :=
               map (\<lambda>r. if skippedEnvironmentsWhere org tm env keep r
                         then r\<lparr>environmentReconcile.status := st\<rparr> else r)
                 (envReconRepo s)\<rparr>"
proof -
  let ?P = "skippedEnvironmentsWhere org tm env keep"
  let ?E = "map (\<lambda>entry. entry\<lparr>environmentReconcile.status := st\<rparr>)
              (getSkippedEnvironments s org tm env keep)"
  have none: "\<forall>e\<in>set ?E. componentReconciles e = None"
    by (auto simp: getSkippedEnvironments_def extend_sel)
  have rows: "map environmentReconcile.truncate ?E =
                map (\<lambda>r. r\<lparr>environmentReconcile.status := st\<rparr>) (filter ?P (envReconRepo s))"
    by (simp add: getSkippedEnvironments_def comp_def truncate_extend_status)
  have "bulkUpdateEnvironmentEntries s (getSkippedEnvironments s org tm env keep) st =
          foldl envReconRepo_save s ?E"
    by (simp add: bulkUpdateEnvironmentEntries_def)
  also have "\<dots> = s\<lparr>envReconRepo :=
                 foldl saveEnvReconRow (envReconRepo s)
                   (map (\<lambda>r. r\<lparr>environmentReconcile.status := st\<rparr>) (filter ?P (envReconRepo s)))\<rparr>"
    using foldl_envReconRepo_save [OF none, of s] by (simp only: rows)
  also have "foldl saveEnvReconRow (envReconRepo s)
               (map (\<lambda>r. r\<lparr>environmentReconcile.status := st\<rparr>) (filter ?P (envReconRepo s))) =
             map (\<lambda>r. if ?P r then r\<lparr>environmentReconcile.status := st\<rparr> else r) (envReconRepo s)"
    by (rule retire_rows [where k = environmentReconcile.reconcileId, OF saveEnvReconRow_def _ assms])
      simp
  finally show ?thesis .
qed

lemma bulkUpdateComponentEntries_getSkipped:
  assumes "distinct (map componentReconcile.reconcileId (compReconRepo s))"
  shows "bulkUpdateComponentEntries s (getSkippedComponents s org envRecon cmp keep) st =
           s\<lparr>compReconRepo :=
               map (\<lambda>r. if skippedComponentsWhere org envRecon cmp keep r
                         then r\<lparr>componentReconcile.status := st\<rparr> else r)
                 (compReconRepo s)\<rparr>"
proof -
  let ?P = "skippedComponentsWhere org envRecon cmp keep"
  have "bulkUpdateComponentEntries s (getSkippedComponents s org envRecon cmp keep) st =
          foldl compReconRepo_save s
            (map (\<lambda>r. r\<lparr>componentReconcile.status := st\<rparr>) (filter ?P (compReconRepo s)))"
    by (simp add: bulkUpdateComponentEntries_def getSkippedComponents_def)
  also have "\<dots> = s\<lparr>compReconRepo :=
                 foldl saveCompReconRow (compReconRepo s)
                   (map (\<lambda>r. r\<lparr>componentReconcile.status := st\<rparr>) (filter ?P (compReconRepo s)))\<rparr>"
    by (rule foldl_compReconRepo_save)
  also have "foldl saveCompReconRow (compReconRepo s)
               (map (\<lambda>r. r\<lparr>componentReconcile.status := st\<rparr>) (filter ?P (compReconRepo s))) =
             map (\<lambda>r. if ?P r then r\<lparr>componentReconcile.status := st\<rparr> else r) (compReconRepo s)"
    by (rule retire_rows [where k = componentReconcile.reconcileId, OF saveCompReconRow_def _ assms])
      simp
  finally show ?thesis .
qed

text \<open>
  C5. A sweep retires exactly the records its selection names. With unique record ids,
  selecting with \<^verbatim>\<open>getSkippedEnvironments\<close> and retiring the selection with
  \<^verbatim>\<open>bulkUpdateEnvironmentEntries\<close> and the status \<^verbatim>\<open>skipped_reconcile\<close> leaves the
  store as it was except that every environment reconciliation of the same team,
  organization and environment with no end time, a status other than
  \<^verbatim>\<open>skipped_reconcile\<close> and an id outside \<open>keepReconcileIds\<close> now has status
  \<^verbatim>\<open>skipped_reconcile\<close>; every other record, so every record that has an end time, is
  already \<^verbatim>\<open>skipped_reconcile\<close> or is kept, is the record it was. The component level,
  with \<^verbatim>\<open>getSkippedComponents\<close> and \<^verbatim>\<open>bulkUpdateComponentEntries\<close>, does the same for
  the component reconciliations of the component under the given environment
  reconciliation.
\<close>

theorem C5_sweep_retires_exactly_the_stale:
  assumes "distinct (map environmentReconcile.reconcileId (envReconRepo s))"
    and "distinct (map componentReconcile.reconcileId (compReconRepo s))"
  shows "bulkUpdateEnvironmentEntries s (getSkippedEnvironments s org tm env keepReconcileIds)
           ''skipped_reconcile'' =
           s\<lparr>envReconRepo :=
               map (\<lambda>r. if environmentReconcile.endDateTime r = None \<and>
                            environmentReconcile.status r \<noteq> ''skipped_reconcile'' \<and>
                            environmentReconcile.reconcileId r \<notin> set keepReconcileIds \<and>
                            environmentReconcile.teamId r = team.id tm \<and>
                            environmentReconcile.orgId r = organization.id org \<and>
                            environmentReconcile.envId r = environment.id env
                         then r\<lparr>environmentReconcile.status := ''skipped_reconcile''\<rparr> else r)
                 (envReconRepo s)\<rparr> \<and>
         bulkUpdateComponentEntries s (getSkippedComponents s org envRecon cmp keepReconcileIds)
           ''skipped_reconcile'' =
           s\<lparr>compReconRepo :=
               map (\<lambda>r. if componentReconcile.compId r = Some (component.id cmp) \<and>
                            componentReconcile.endDateTime r = None \<and>
                            componentReconcile.status r \<noteq> ''skipped_reconcile'' \<and>
                            componentReconcile.reconcileId r \<notin> set keepReconcileIds \<and>
                            componentReconcile.envReconId r = environmentReconcile.reconcileId envRecon \<and>
                            componentReconcile.orgId r = organization.id org
                         then r\<lparr>componentReconcile.status := ''skipped_reconcile''\<rparr> else r)
                 (compReconRepo s)\<rparr>"
  unfolding bulkUpdateEnvironmentEntries_getSkipped [OF assms(1)]
    bulkUpdateComponentEntries_getSkipped [OF assms(2)]
    skippedEnvironmentsWhere_def skippedComponentsWhere_def
  by simp

theorem C5_sweep_retires_exactly_the_stale_witness:
  "envReconRepo
     (bulkUpdateEnvironmentEntries exampleSweepStore
        (getSkippedEnvironments exampleSweepStore exampleOrg exampleTeam exampleEnv [4])
        ''skipped_reconcile'') =
     [exampleEnvRecon\<lparr>environmentReconcile.status := ''succeeded'',
                      environmentReconcile.endDateTime := Some 150\<rparr>,
      exampleEnvRecon\<lparr>environmentReconcile.reconcileId := 2,
                      environmentReconcile.status := ''skipped_reconcile''\<rparr>,
      exampleEnvRecon\<lparr>environmentReconcile.reconcileId := 3,
                      environmentReconcile.status := ''skipped_reconcile''\<rparr>,
      exampleEnvRecon\<lparr>environmentReconcile.reconcileId := 4\<rparr>,
      exampleEnvRecon\<lparr>environmentReconcile.reconcileId := 5,
                      environmentReconcile.envId := 2\<rparr>] \<and>
   compReconRepo
     (bulkUpdateComponentEntries exampleSweepStore
        (getSkippedComponents exampleSweepStore exampleOrg
           (exampleEnvRecon\<lparr>environmentReconcile.reconcileId := 4\<rparr>)
           \<lparr>component.id = 1, name = ''network'', isDeleted = False, envId = 1, latestCompRecon = None\<rparr>
           [4])
        ''skipped_reconcile'') =
     [exampleCompRecon,
      exampleCompRecon\<lparr>componentReconcile.reconcileId := 2,
                       componentReconcile.status := ''skipped_reconcile'',
                       componentReconcile.endDateTime := None\<rparr>,
      exampleCompRecon\<lparr>componentReconcile.reconcileId := 3,
                       componentReconcile.status := ''skipped_reconcile'',
                       componentReconcile.endDateTime := None\<rparr>,
      exampleCompRecon\<lparr>componentReconcile.reconcileId := 4,
                       componentReconcile.status := ''waiting_for_parent'',
                       componentReconcile.endDateTime := None\<rparr>,
      exampleCompRecon\<lparr>componentReconcile.reconcileId := 5,
                       componentReconcile.compId := Some 3,
                       componentReconcile.status := ''running'',
                       componentReconcile.endDateTime := None\<rparr>]"
proof -
  have h1: "distinct (map environmentReconcile.reconcileId (envReconRepo exampleSweepStore))"
    by (simp add: exampleSweepStore_def exampleEnvRecon_def)
  have h2: "distinct (map componentReconcile.reconcileId (compReconRepo exampleSweepStore))"
    by (simp add: exampleSweepStore_def exampleCompRecon_def)
  note sweep = C5_sweep_retires_exactly_the_stale [OF h1 h2, of exampleOrg exampleTeam exampleEnv "[4]"
      "exampleEnvRecon\<lparr>environmentReconcile.reconcileId := 4\<rparr>"
      "\<lparr>component.id = 1, name = ''network'', isDeleted = False, envId = 1, latestCompRecon = None\<rparr>"]
  show ?thesis
    unfolding sweep [THEN conjunct1] sweep [THEN conjunct2]
    by (simp add: exampleSweepStore_def exampleEnvRecon_def exampleCompRecon_def exampleOrg_def
        exampleTeam_def exampleEnv_def)
qed

lemma find_map_distinct:
  assumes "distinct (map k T)" and "\<And>x. k (g x) = k x" and "r \<in> set T"
  shows "find (\<lambda>x. k x = k r) (map g T) = Some (g r)"
  using find_in_image [of k T k g r "\<lambda>_. True", OF assms] by simp

text \<open>
  C6. Retiring changes the status and nothing else. With unique record ids, after the
  bulk update of the records a sweep selected, with any status, the stored record of
  each selected entry is that entry with the status replaced: putting the old status
  back gives the entry as it was read, and its end time is still unset. The bulk update
  of environment reconciliations leaves the component reconciliations alone, and the
  other way round.
\<close>

theorem C6_retiring_changes_status_only:
  assumes "distinct (map environmentReconcile.reconcileId (envReconRepo s))"
    and "distinct (map componentReconcile.reconcileId (compReconRepo s))"
  shows "(\<forall>e\<in>set (getSkippedEnvironments s org tm env keep).
            \<exists>r'. find (\<lambda>r. environmentReconcile.reconcileId r = environmentReconcile.reconcileId e)
                    (envReconRepo (bulkUpdateEnvironmentEntries s
                       (getSkippedEnvironments s org tm env keep) st)) = Some r' \<and>
                 environmentReconcile.status r' = st \<and>
                 r'\<lparr>environmentReconcile.status := environmentReconcile.status e\<rparr> =
                   environmentReconcile.truncate e \<and>
                 environmentReconcile.endDateTime r' = environmentReconcile.endDateTime e \<and>
                 environmentReconcile.endDateTime r' = None) \<and>
         compReconRepo (bulkUpdateEnvironmentEntries s (getSkippedEnvironments s org tm env keep) st) =
           compReconRepo s \<and>
         (\<forall>e\<in>set (getSkippedComponents s org envRecon cmp keep).
            \<exists>r'. find (\<lambda>r. componentReconcile.reconcileId r = componentReconcile.reconcileId e)
                    (compReconRepo (bulkUpdateComponentEntries s
                       (getSkippedComponents s org envRecon cmp keep) st)) = Some r' \<and>
                 componentReconcile.status r' = st \<and>
                 r'\<lparr>componentReconcile.status := componentReconcile.status e\<rparr> = e \<and>
                 componentReconcile.endDateTime r' = componentReconcile.endDateTime e \<and>
                 componentReconcile.endDateTime r' = None) \<and>
         envReconRepo (bulkUpdateComponentEntries s (getSkippedComponents s org envRecon cmp keep) st) =
           envReconRepo s"
proof (intro conjI ballI)
  fix e assume "e \<in> set (getSkippedEnvironments s org tm env keep)"
  then obtain r where r: "r \<in> set (envReconRepo s)" "skippedEnvironmentsWhere org tm env keep r"
      and e: "e = environmentReconcile.extend r (envReconEntity.fields None)"
    by (auto simp: getSkippedEnvironments_def)
  let ?g = "\<lambda>r. if skippedEnvironmentsWhere org tm env keep r
                then r\<lparr>environmentReconcile.status := st\<rparr> else r"
  have "find (\<lambda>x. environmentReconcile.reconcileId x = environmentReconcile.reconcileId r)
          (map ?g (envReconRepo s)) = Some (?g r)"
    by (rule find_map_distinct [OF assms(1) _ r(1)]) simp
  then have found: "find (\<lambda>x. environmentReconcile.reconcileId x = environmentReconcile.reconcileId e)
          (envReconRepo (bulkUpdateEnvironmentEntries s (getSkippedEnvironments s org tm env keep) st)) =
        Some (r\<lparr>environmentReconcile.status := st\<rparr>)"
    using r(2) by (simp add: bulkUpdateEnvironmentEntries_getSkipped [OF assms(1)] e extend_sel)
  have "environmentReconcile.endDateTime r = None"
    using r(2) by (simp add: skippedEnvironmentsWhere_def)
  then show "\<exists>r'. find (\<lambda>r. environmentReconcile.reconcileId r = environmentReconcile.reconcileId e)
                    (envReconRepo (bulkUpdateEnvironmentEntries s
                       (getSkippedEnvironments s org tm env keep) st)) = Some r' \<and>
                 environmentReconcile.status r' = st \<and>
                 r'\<lparr>environmentReconcile.status := environmentReconcile.status e\<rparr> =
                   environmentReconcile.truncate e \<and>
                 environmentReconcile.endDateTime r' = environmentReconcile.endDateTime e \<and>
                 environmentReconcile.endDateTime r' = None"
    unfolding found by (simp add: e extend_sel)
next
  show "compReconRepo (bulkUpdateEnvironmentEntries s (getSkippedEnvironments s org tm env keep) st) =
           compReconRepo s"
    by (simp add: bulkUpdateEnvironmentEntries_getSkipped [OF assms(1)])
next
  fix e assume "e \<in> set (getSkippedComponents s org envRecon cmp keep)"
  then have r: "e \<in> set (compReconRepo s)" "skippedComponentsWhere org envRecon cmp keep e"
    by (auto simp: getSkippedComponents_def)
  let ?g = "\<lambda>r. if skippedComponentsWhere org envRecon cmp keep r
                then r\<lparr>componentReconcile.status := st\<rparr> else r"
  have "find (\<lambda>x. componentReconcile.reconcileId x = componentReconcile.reconcileId e)
          (map ?g (compReconRepo s)) = Some (?g e)"
    by (rule find_map_distinct [OF assms(2) _ r(1)]) simp
  then have found: "find (\<lambda>x. componentReconcile.reconcileId x = componentReconcile.reconcileId e)
          (compReconRepo (bulkUpdateComponentEntries s (getSkippedComponents s org envRecon cmp keep) st)) =
        Some (e\<lparr>componentReconcile.status := st\<rparr>)"
    using r(2) by (simp add: bulkUpdateComponentEntries_getSkipped [OF assms(2)])
  have "componentReconcile.endDateTime e = None"
    using r(2) by (simp add: skippedComponentsWhere_def)
  then show "\<exists>r'. find (\<lambda>r. componentReconcile.reconcileId r = componentReconcile.reconcileId e)
                    (compReconRepo (bulkUpdateComponentEntries s
                       (getSkippedComponents s org envRecon cmp keep) st)) = Some r' \<and>
                 componentReconcile.status r' = st \<and>
                 r'\<lparr>componentReconcile.status := componentReconcile.status e\<rparr> = e \<and>
                 componentReconcile.endDateTime r' = componentReconcile.endDateTime e \<and>
                 componentReconcile.endDateTime r' = None"
    unfolding found by simp
next
  show "envReconRepo (bulkUpdateComponentEntries s (getSkippedComponents s org envRecon cmp keep) st) =
           envReconRepo s"
    by (simp add: bulkUpdateComponentEntries_getSkipped [OF assms(2)])
qed

theorem C6_retiring_changes_status_only_witness:
  "getSkippedEnvironments exampleSweepStore exampleOrg exampleTeam exampleEnv [4] =
     [environmentReconcile.extend
        (exampleEnvRecon\<lparr>environmentReconcile.reconcileId := 2,
                         environmentReconcile.status := ''running''\<rparr>)
        (envReconEntity.fields None)] \<and>
   (\<exists>r'. find (\<lambda>r. environmentReconcile.reconcileId r = 2)
            (envReconRepo (bulkUpdateEnvironmentEntries exampleSweepStore
               (getSkippedEnvironments exampleSweepStore exampleOrg exampleTeam exampleEnv [4])
               ''skipped_reconcile'')) = Some r' \<and>
         environmentReconcile.status r' = ''skipped_reconcile'' \<and>
         r'\<lparr>environmentReconcile.status := ''running''\<rparr> =
           exampleEnvRecon\<lparr>environmentReconcile.reconcileId := 2,
                           environmentReconcile.status := ''running''\<rparr> \<and>
         environmentReconcile.endDateTime r' = None)"
proof -
  let ?e = "environmentReconcile.extend
        (exampleEnvRecon\<lparr>environmentReconcile.reconcileId := 2,
                         environmentReconcile.status := ''running''\<rparr>)
        (envReconEntity.fields None)"
  have h1: "distinct (map environmentReconcile.reconcileId (envReconRepo exampleSweepStore))"
    by (simp add: exampleSweepStore_def exampleEnvRecon_def)
  have h2: "distinct (map componentReconcile.reconcileId (compReconRepo exampleSweepStore))"
    by (simp add: exampleSweepStore_def exampleCompRecon_def)
  have sel: "getSkippedEnvironments exampleSweepStore exampleOrg exampleTeam exampleEnv [4] = [?e]"
    by (simp add: getSkippedEnvironments_def skippedEnvironmentsWhere_def exampleSweepStore_def
        exampleEnvRecon_def exampleOrg_def exampleTeam_def exampleEnv_def)
  then have mem: "?e \<in> set (getSkippedEnvironments exampleSweepStore exampleOrg exampleTeam exampleEnv [4])"
    by simp
  from C6_retiring_changes_status_only [OF h1 h2, THEN conjunct1, THEN bspec, OF mem,
      of "''skipped_reconcile''"]
  obtain r' where r0:
    "find (\<lambda>r. environmentReconcile.reconcileId r = environmentReconcile.reconcileId ?e)
       (envReconRepo (bulkUpdateEnvironmentEntries exampleSweepStore
          (getSkippedEnvironments exampleSweepStore exampleOrg exampleTeam exampleEnv [4])
          ''skipped_reconcile'')) = Some r' \<and>
     environmentReconcile.status r' = ''skipped_reconcile'' \<and>
     r'\<lparr>environmentReconcile.status := environmentReconcile.status ?e\<rparr> =
       environmentReconcile.truncate ?e \<and>
     environmentReconcile.endDateTime r' = environmentReconcile.endDateTime ?e \<and>
     environmentReconcile.endDateTime r' = None"
    by (elim exE) (rule that)
  have "find (\<lambda>r. environmentReconcile.reconcileId r = 2)
            (envReconRepo (bulkUpdateEnvironmentEntries exampleSweepStore
               (getSkippedEnvironments exampleSweepStore exampleOrg exampleTeam exampleEnv [4])
               ''skipped_reconcile'')) = Some r' \<and>
         environmentReconcile.status r' = ''skipped_reconcile'' \<and>
         r'\<lparr>environmentReconcile.status := ''running''\<rparr> =
           exampleEnvRecon\<lparr>environmentReconcile.reconcileId := 2,
                           environmentReconcile.status := ''running''\<rparr> \<and>
         environmentReconcile.endDateTime r' = None"
    using r0 by (simp add: extend_sel exampleEnvRecon_def)
  then have "\<exists>r'. find (\<lambda>r. environmentReconcile.reconcileId r = 2)
            (envReconRepo (bulkUpdateEnvironmentEntries exampleSweepStore
               (getSkippedEnvironments exampleSweepStore exampleOrg exampleTeam exampleEnv [4])
               ''skipped_reconcile'')) = Some r' \<and>
         environmentReconcile.status r' = ''skipped_reconcile'' \<and>
         r'\<lparr>environmentReconcile.status := ''running''\<rparr> =
           exampleEnvRecon\<lparr>environmentReconcile.reconcileId := 2,
                           environmentReconcile.status := ''running''\<rparr> \<and>
         environmentReconcile.endDateTime r' = None"
    by (rule exI)
  with sel show ?thesis by (rule conjI)
qed

section \<open>Properties of the cost recompute\<close>

lemma costLoop_foldl:
  "costLoop add cs cost =
     foldl add cost
       (filter (\<lambda>x. 0 < x)
          (List.map_filter (\<lambda>c. map_option componentReconcile.estimatedCost (latestCompRecon c)) cs))"
  by (induction cs arbitrary: cost) (auto simp: List.map_filter_simps split: option.splits)

lemma map_filter_map:
  "List.map_filter f xs = List.map_filter (\<lambda>x. x) (map f xs)"
  by (induction xs) (auto simp: List.map_filter_simps split: option.splits)

lemma find_saveEnvReconRow:
  "find (\<lambda>r. environmentReconcile.reconcileId r = environmentReconcile.reconcileId row)
     (saveEnvReconRow rows row) = Some row"
proof (cases "find (\<lambda>r. environmentReconcile.reconcileId r = environmentReconcile.reconcileId row) rows")
  case None
  then have "find (\<lambda>r. environmentReconcile.reconcileId r = environmentReconcile.reconcileId row)
               (rows @ [row]) = Some row"
    by (induction rows) (auto split: if_splits)
  with None show ?thesis by (simp add: saveEnvReconRow_def)
next
  case (Some a)
  then have "find (\<lambda>r. environmentReconcile.reconcileId r = environmentReconcile.reconcileId row)
               (map (\<lambda>r. if environmentReconcile.reconcileId r = environmentReconcile.reconcileId row
                          then row else r) rows) = Some row"
    by (induction rows) (auto split: if_splits)
  with Some show ?thesis by (simp add: saveEnvReconRow_def)
qed

lemma saveEnvReconRow_others:
  "filter (\<lambda>r. environmentReconcile.reconcileId r \<noteq> environmentReconcile.reconcileId row)
     (saveEnvReconRow rows row) =
   filter (\<lambda>r. environmentReconcile.reconcileId r \<noteq> environmentReconcile.reconcileId row) rows"
proof -
  have "filter (\<lambda>r. environmentReconcile.reconcileId r \<noteq> environmentReconcile.reconcileId row)
          (map (\<lambda>r. if environmentReconcile.reconcileId r = environmentReconcile.reconcileId row
                     then row else r) rows) =
        filter (\<lambda>r. environmentReconcile.reconcileId r \<noteq> environmentReconcile.reconcileId row) rows"
    by (induction rows) auto
  then show ?thesis by (simp add: saveEnvReconRow_def)
qed

lemma saveEnvReconRow_idem:
  "saveEnvReconRow (saveEnvReconRow rows row) row = saveEnvReconRow rows row"
proof -
  let ?X = "saveEnvReconRow rows row"
  have same: "\<forall>r\<in>set ?X. environmentReconcile.reconcileId r = environmentReconcile.reconcileId row
                \<longrightarrow> r = row"
    by (auto simp: saveEnvReconRow_def find_None_iff)
  have "find (\<lambda>r. environmentReconcile.reconcileId r = environmentReconcile.reconcileId row) ?X \<noteq> None"
    by (simp add: find_saveEnvReconRow)
  then have "saveEnvReconRow ?X row =
               map (\<lambda>r. if environmentReconcile.reconcileId r = environmentReconcile.reconcileId row
                         then row else r) ?X"
    by (simp add: saveEnvReconRow_def)
  also have "\<dots> = ?X"
    using same by (intro map_idI) auto
  finally show ?thesis .
qed

lemma envReconRepo_save_idem:
  "componentReconciles e = None \<Longrightarrow>
   envReconRepo_save (envReconRepo_save s e) e = envReconRepo_save s e"
  by (simp add: envReconRepo_save_def saveEnvReconRow_idem)

lemma updateCost_Some:
  assumes "latestEnvRecon env = Some envRecon"
  shows "updateCost add s env =
           (Inr (env\<lparr>latestEnvRecon :=
                      Some (envRecon\<lparr>componentReconciles := None,
                                     environmentReconcile.estimatedCost :=
                                       costLoop add (environment.components env) 0\<rparr>)\<rparr>),
                s\<lparr>envReconRepo :=
                    saveEnvReconRow (envReconRepo s)
                      ((environmentReconcile.truncate envRecon)
                         \<lparr>environmentReconcile.estimatedCost :=
                            costLoop add (environment.components env) 0\<rparr>)\<rparr>)"
  using assms
  by (simp add: updateCost_def Let_def envReconRepo_save_def environmentReconcile.truncate_def)

lemma updateCost_no_latest:
  "latestEnvRecon env = None \<Longrightarrow> updateCost add s env = (Inl TypeError, s)"
  by (simp add: updateCost_def)

lemma updateCost_again:
  assumes "latestEnvRecon env = Some envRecon"
    and "updateCost add s env = (Inr env', s')"
  shows "updateCost add s' env' = (Inr env', s')"
proof -
  let ?cost = "costLoop add (environment.components env) 0"
  let ?merged = "envRecon\<lparr>componentReconciles := None, environmentReconcile.estimatedCost := ?cost\<rparr>"
  let ?row = "(environmentReconcile.truncate envRecon)\<lparr>environmentReconcile.estimatedCost := ?cost\<rparr>"
  from assms have env': "env' = env\<lparr>latestEnvRecon := Some ?merged\<rparr>"
    and s': "s' = s\<lparr>envReconRepo := saveEnvReconRow (envReconRepo s) ?row\<rparr>"
    by (simp_all add: updateCost_Some)
  have latest: "latestEnvRecon env' = Some ?merged" and comps: "environment.components env' = environment.components env"
    by (simp_all add: env')
  have row: "(environmentReconcile.truncate ?merged)\<lparr>environmentReconcile.estimatedCost := ?cost\<rparr> = ?row"
    by (simp add: environmentReconcile.truncate_def)
  show ?thesis
    unfolding updateCost_Some [OF latest] comps row
    by (simp add: env' s' saveEnvReconRow_idem)
qed

text \<open>
  C7. For an environment that has a latest environment reconciliation, the cost
  recompute succeeds and stores, on the record of that reconciliation, the sum the loop
  accumulates: starting from 0, the cost of each component's latest reconciliation where
  that cost is positive, added in the order of the components with the addition of
  doubles; a component whose cost is not positive or that has no latest reconciliation
  adds nothing. The entity the environment holds carries the same value. For the latest
  costs 10, -5, 0 and 7.5 the value is 17.5, the two additions 0 + 10 and 10 + 7.5 being
  exact. A second recompute on the result changes nothing.
\<close>

theorem C7_cost_recompute:
  assumes "latestEnvRecon env = Some envRecon"
  shows "\<exists>env' s' row.
           updateCost add s env = (Inr env', s') \<and>
           find (\<lambda>r. environmentReconcile.reconcileId r = environmentReconcile.reconcileId envRecon)
             (envReconRepo s') = Some row \<and>
           environmentReconcile.estimatedCost row =
             foldl add 0
               (filter (\<lambda>x. 0 < x)
                  (List.map_filter
                     (\<lambda>c. map_option componentReconcile.estimatedCost (latestCompRecon c))
                     (environment.components env))) \<and>
           (map (\<lambda>c. map_option componentReconcile.estimatedCost (latestCompRecon c))
              (environment.components env) = [Some 10, Some (- 5), Some 0, Some 7.5] \<and>
            add 0 10 = 10 \<and> add 10 7.5 = 17.5 \<longrightarrow>
            environmentReconcile.estimatedCost row = 17.5) \<and>
           map_option environmentReconcile.estimatedCost (latestEnvRecon env') =
             Some (environmentReconcile.estimatedCost row) \<and>
           updateCost add s' env' = (Inr env', s')"
proof -
  let ?cost = "costLoop add (environment.components env) 0"
  let ?merged = "envRecon\<lparr>componentReconciles := None, environmentReconcile.estimatedCost := ?cost\<rparr>"
  let ?row = "(environmentReconcile.truncate envRecon)\<lparr>environmentReconcile.estimatedCost := ?cost\<rparr>"
  let ?env' = "env\<lparr>latestEnvRecon := Some ?merged\<rparr>"
  let ?s' = "s\<lparr>envReconRepo := saveEnvReconRow (envReconRepo s) ?row\<rparr>"
  let ?costs = "\<lambda>c. map_option componentReconcile.estimatedCost (latestCompRecon c)"
  have run: "updateCost add s env = (Inr ?env', ?s')"
    by (rule updateCost_Some [OF assms])
  have "environmentReconcile.reconcileId ?row = environmentReconcile.reconcileId envRecon"
    by (simp add: environmentReconcile.truncate_def)
  with find_saveEnvReconRow [of ?row "envReconRepo s"]
  have found: "find (\<lambda>r. environmentReconcile.reconcileId r = environmentReconcile.reconcileId envRecon)
                 (envReconRepo ?s') = Some ?row"
    by simp
  have total: "environmentReconcile.estimatedCost ?row =
             foldl add 0
               (filter (\<lambda>x. 0 < x) (List.map_filter ?costs (environment.components env)))"
    by (simp add: costLoop_foldl)
  have example: "map ?costs (environment.components env) = [Some 10, Some (- 5), Some 0, Some 7.5] \<and>
            add 0 10 = 10 \<and> add 10 7.5 = 17.5 \<longrightarrow>
            environmentReconcile.estimatedCost ?row = 17.5"
  proof
    assume h: "map ?costs (environment.components env) = [Some 10, Some (- 5), Some 0, Some 7.5] \<and>
            add 0 10 = 10 \<and> add 10 7.5 = 17.5"
    have "List.map_filter ?costs (environment.components env) =
            List.map_filter (\<lambda>x. x) (map ?costs (environment.components env))"
      by (rule map_filter_map)
    also have "\<dots> = [10, - 5, 0, 7.5]"
      using h by (simp add: List.map_filter_simps)
    finally have "environmentReconcile.estimatedCost ?row = add (add 0 10) 7.5"
      unfolding total by simp
    with h show "environmentReconcile.estimatedCost ?row = 17.5" by simp
  qed
  have mem: "map_option environmentReconcile.estimatedCost (latestEnvRecon ?env') =
               Some (environmentReconcile.estimatedCost ?row)"
    by simp
  have again: "updateCost add ?s' ?env' = (Inr ?env', ?s')"
    by (rule updateCost_again [OF assms run])
  show ?thesis
    by (intro exI conjI) (rule run found total example mem again)+
qed

theorem C7_cost_recompute_witness:
  "\<exists>env' s' row.
     updateCost (+) exampleSweepStore exampleCostEnv = (Inr env', s') \<and>
     find (\<lambda>r. environmentReconcile.reconcileId r = 4) (envReconRepo s') = Some row \<and>
     environmentReconcile.estimatedCost row = 17.5 \<and>
     updateCost (+) s' env' = (Inr env', s')"
proof -
  let ?envRecon = "environmentReconcile.extend (exampleEnvRecon\<lparr>environmentReconcile.reconcileId := 4\<rparr>)
                  (envReconEntity.fields
                     (Some [exampleCompRecon\<lparr>componentReconcile.reconcileId := 2,
                                              componentReconcile.status := ''initializing'',
                                              componentReconcile.endDateTime := None\<rparr>]))"
  let ?costs = "\<lambda>c. map_option componentReconcile.estimatedCost (latestCompRecon c)"
  have h: "latestEnvRecon exampleCostEnv = Some ?envRecon"
    by (simp add: exampleCostEnv_def)
  from C7_cost_recompute [OF h, where add = "(+)" and s = exampleSweepStore]
  obtain env' s' row where r0:
    "updateCost (+) exampleSweepStore exampleCostEnv = (Inr env', s') \<and>
     find (\<lambda>r. environmentReconcile.reconcileId r = environmentReconcile.reconcileId ?envRecon)
       (envReconRepo s') = Some row \<and>
     environmentReconcile.estimatedCost row =
       foldl (+) 0
         (filter (\<lambda>x. 0 < x) (List.map_filter ?costs (environment.components exampleCostEnv))) \<and>
     (map ?costs (environment.components exampleCostEnv) = [Some 10, Some (- 5), Some 0, Some 7.5] \<and>
      (0::real) + 10 = 10 \<and> (10::real) + 7.5 = 17.5 \<longrightarrow>
      environmentReconcile.estimatedCost row = 17.5) \<and>
     map_option environmentReconcile.estimatedCost (latestEnvRecon env') =
       Some (environmentReconcile.estimatedCost row) \<and>
     updateCost (+) s' env' = (Inr env', s')"
    by (elim exE) (rule that)
  note r = r0 [THEN conjunct1] r0 [THEN conjunct2, THEN conjunct1]
    r0 [THEN conjunct2, THEN conjunct2, THEN conjunct2, THEN conjunct1]
    r0 [THEN conjunct2, THEN conjunct2, THEN conjunct2, THEN conjunct2, THEN conjunct2]
  have found: "find (\<lambda>r. environmentReconcile.reconcileId r = 4) (envReconRepo s') = Some row"
    using r(2) by (simp add: extend_sel)
  have costs: "map ?costs (environment.components exampleCostEnv) =
                 [Some 10, Some (- 5), Some 0, Some 7.5] \<and>
               (0::real) + 10 = 10 \<and> (10::real) + 7.5 = 17.5"
    by (simp add: exampleCostEnv_def exampleCompRecon_def)
  have total: "environmentReconcile.estimatedCost row = 17.5"
    by (rule r(3) [THEN mp, OF costs])
  show ?thesis
    by (intro exI conjI) (rule r(1) found total r(4))+
qed

lemma envReconRepo_save_children_example:
  "compReconRepo
     (envReconRepo_save exampleSweepStore
        (environmentReconcile.extend (exampleEnvRecon\<lparr>environmentReconcile.reconcileId := 4\<rparr>)
           (envReconEntity.fields
              (Some [exampleCompRecon\<lparr>componentReconcile.reconcileId := 2,
                                       componentReconcile.status := ''initializing'',
                                       componentReconcile.endDateTime := None\<rparr>])))) \<noteq>
   compReconRepo exampleSweepStore"
  by (simp add: envReconRepo_save_def extend_sel saveCompReconRow_def exampleSweepStore_def
      exampleCompRecon_def)

text \<open>
  C8. The cost recompute writes the record of the environment's latest reconciliation
  and nothing else: whatever component reconciliations the entity carries in memory, the
  stored component reconciliations are as they were, and so are the components, the
  environments and every other environment reconciliation. The record written is the
  entity's own columns with the estimated cost replaced, and the entity is left without
  its \<^verbatim>\<open>componentReconciles\<close>.
\<close>

theorem C8_cost_write_leaves_children:
  assumes "latestEnvRecon env = Some envRecon"
  shows "\<exists>env' s' row.
           updateCost add s env = (Inr env', s') \<and>
           compReconRepo s' = compReconRepo s \<and>
           compRepo s' = compRepo s \<and>
           envRepo s' = envRepo s \<and>
           filter (\<lambda>r. environmentReconcile.reconcileId r \<noteq> environmentReconcile.reconcileId envRecon)
             (envReconRepo s') =
           filter (\<lambda>r. environmentReconcile.reconcileId r \<noteq> environmentReconcile.reconcileId envRecon)
             (envReconRepo s) \<and>
           find (\<lambda>r. environmentReconcile.reconcileId r = environmentReconcile.reconcileId envRecon)
             (envReconRepo s') = Some row \<and>
           row\<lparr>environmentReconcile.estimatedCost := environmentReconcile.estimatedCost envRecon\<rparr> =
             environmentReconcile.truncate envRecon \<and>
           map_option componentReconciles (latestEnvRecon env') = Some None"
proof -
  let ?cost = "costLoop add (environment.components env) 0"
  let ?merged = "envRecon\<lparr>componentReconciles := None, environmentReconcile.estimatedCost := ?cost\<rparr>"
  let ?row = "(environmentReconcile.truncate envRecon)\<lparr>environmentReconcile.estimatedCost := ?cost\<rparr>"
  let ?env' = "env\<lparr>latestEnvRecon := Some ?merged\<rparr>"
  let ?s' = "s\<lparr>envReconRepo := saveEnvReconRow (envReconRepo s) ?row\<rparr>"
  have run: "updateCost add s env = (Inr ?env', ?s')"
    by (rule updateCost_Some [OF assms])
  have key: "environmentReconcile.reconcileId ?row = environmentReconcile.reconcileId envRecon"
    by (simp add: environmentReconcile.truncate_def)
  have children: "compReconRepo ?s' = compReconRepo s" and comps: "compRepo ?s' = compRepo s"
    and envs: "envRepo ?s' = envRepo s"
    by simp_all
  have others: "filter (\<lambda>r. environmentReconcile.reconcileId r \<noteq> environmentReconcile.reconcileId envRecon)
             (envReconRepo ?s') =
           filter (\<lambda>r. environmentReconcile.reconcileId r \<noteq> environmentReconcile.reconcileId envRecon)
             (envReconRepo s)"
    using saveEnvReconRow_others [of ?row "envReconRepo s"] key by simp
  have found: "find (\<lambda>r. environmentReconcile.reconcileId r = environmentReconcile.reconcileId envRecon)
                 (envReconRepo ?s') = Some ?row"
    using find_saveEnvReconRow [of ?row "envReconRepo s"] key by simp
  have scalar: "?row\<lparr>environmentReconcile.estimatedCost := environmentReconcile.estimatedCost envRecon\<rparr> =
             environmentReconcile.truncate envRecon"
    by (simp add: environmentReconcile.truncate_def)
  have mem: "map_option componentReconciles (latestEnvRecon ?env') = Some None"
    by simp
  show ?thesis
    by (intro exI conjI) (rule run children comps envs others found scalar mem)+
qed

theorem C8_cost_write_leaves_children_witness:
  "\<exists>env' s'.
     updateCost (+) exampleSweepStore exampleCostEnv = (Inr env', s') \<and>
     compReconRepo s' = compReconRepo exampleSweepStore \<and>
     find (\<lambda>r. componentReconcile.reconcileId r = 2) (compReconRepo s') =
       Some (exampleCompRecon\<lparr>componentReconcile.reconcileId := 2,
                              componentReconcile.status := ''running'',
                              componentReconcile.endDateTime := None\<rparr>) \<and>
     map_option componentReconciles (latestEnvRecon env') = Some None"
proof -
  let ?envRecon = "environmentReconcile.extend (exampleEnvRecon\<lparr>environmentReconcile.reconcileId := 4\<rparr>)
                  (envReconEntity.fields
                     (Some [exampleCompRecon\<lparr>componentReconcile.reconcileId := 2,
                                              componentReconcile.status := ''initializing'',
                                              componentReconcile.endDateTime := None\<rparr>]))"
  have h: "latestEnvRecon exampleCostEnv = Some ?envRecon"
    by (simp add: exampleCostEnv_def)
  from C8_cost_write_leaves_children [OF h, where add = "(+)" and s = exampleSweepStore]
  obtain env' s' row where r0:
    "updateCost (+) exampleSweepStore exampleCostEnv = (Inr env', s') \<and>
     compReconRepo s' = compReconRepo exampleSweepStore \<and>
     compRepo s' = compRepo exampleSweepStore \<and>
     envRepo s' = envRepo exampleSweepStore \<and>
     filter (\<lambda>r. environmentReconcile.reconcileId r \<noteq> environmentReconcile.reconcileId ?envRecon)
       (envReconRepo s') =
     filter (\<lambda>r. environmentReconcile.reconcileId r \<noteq> environmentReconcile.reconcileId ?envRecon)
       (envReconRepo exampleSweepStore) \<and>
     find (\<lambda>r. environmentReconcile.reconcileId r = environmentReconcile.reconcileId ?envRecon)
       (envReconRepo s') = Some row \<and>
     row\<lparr>environmentReconcile.estimatedCost := environmentReconcile.estimatedCost ?envRecon\<rparr> =
       environmentReconcile.truncate ?envRecon \<and>
     map_option componentReconciles (latestEnvRecon env') = Some None"
    by (elim exE) (rule that)
  note r = r0 [THEN conjunct1] r0 [THEN conjunct2, THEN conjunct1]
    r0 [THEN conjunct2, THEN conjunct2, THEN conjunct2, THEN conjunct2, THEN conjunct2, THEN conjunct2,
      THEN conjunct2]
  have child: "find (\<lambda>r. componentReconcile.reconcileId r = 2) (compReconRepo s') =
       Some (exampleCompRecon\<lparr>componentReconcile.reconcileId := 2,
                              componentReconcile.status := ''running'',
                              componentReconcile.endDateTime := None\<rparr>)"
    unfolding r(2) by (simp add: exampleSweepStore_def exampleCompRecon_def)
  show ?thesis
    by (intro exI conjI) (rule r(1) r(2) child r(3))+
qed

section \<open>Properties of the latest meaningful run\<close>

lemma findOneLatest_None: "(findOneLatest rs = None) = (rs = [])"
  by (cases rs) (auto split: option.splits)

lemma findOneLatest_Some:
  "findOneLatest rs = Some r \<Longrightarrow>
   r \<in> set rs \<and> (\<forall>x\<in>set rs. componentReconcile.startDateTime x \<le> componentReconcile.startDateTime r)"
proof (induction rs arbitrary: r)
  case Nil
  then show ?case by simp
next
  case (Cons a rs)
  show ?case
  proof (cases "findOneLatest rs")
    case None
    then have "rs = []" by (simp add: findOneLatest_None)
    with Cons.prems show ?thesis by simp
  next
    case (Some best)
    from Cons.IH [OF Some]
    have best: "best \<in> set rs"
      "\<forall>x\<in>set rs. componentReconcile.startDateTime x \<le> componentReconcile.startDateTime best"
      by simp_all
    show ?thesis
    proof (cases "componentReconcile.startDateTime a < componentReconcile.startDateTime best")
      case True
      with Some Cons.prems have "r = best" by simp
      with best True show ?thesis by auto
    next
      case False
      with Some Cons.prems have "r = a" by simp
      moreover from False have "componentReconcile.startDateTime best \<le> componentReconcile.startDateTime a"
        by simp
      ultimately show ?thesis using best(2) by (auto intro: order_trans)
    qed
  qed
qed

lemma getLatestCompReconcile_example:
  assumes "t1 < t2" and "t2 < t3" and "t3 < t4"
  shows "getLatestCompReconcile (exampleStore\<lparr>compReconRepo := exampleRuns t1 t2 t3 t4\<rparr>) exampleOrg
           \<lparr>component.id = 1, name = ''network'', isDeleted = False, envId = 1, latestCompRecon = None\<rparr> =
         Some (exampleCompRecon\<lparr>componentReconcile.reconcileId := 4,
                                componentReconcile.status := ''failed'',
                                componentReconcile.startDateTime := Some t4\<rparr>)"
  using assms
  by (simp add: getLatestCompReconcile_def whereClause_def likePrefix_def asciiLower_def
      exampleRuns_def exampleCompRecon_def exampleOrg_def)

text \<open>
  C9, as the claim states it, fails: the only run of the component has the status
  \<^verbatim>\<open>SKIPPED_manual\<close>, which does not start with \<^verbatim>\<open>skipped\<close> and is not
  \<^verbatim>\<open>waiting_for_parent\<close>, and its \<^verbatim>\<open>isSkipped\<close> is null, yet no run is returned: the
  database matches \<^verbatim>\<open>skipped%\<close> without regard to case.
\<close>

theorem C9_latest_meaningful_run_counterexample:
  "getLatestCompReconcile exampleUpperCaseStore exampleOrg
     \<lparr>component.id = 1, name = ''network'', isDeleted = False, envId = 1, latestCompRecon = None\<rparr> =
     None \<and>
   exampleCompRecon\<lparr>componentReconcile.status := ''SKIPPED_manual''\<rparr> \<in>
     set (compReconRepo exampleUpperCaseStore) \<and>
   componentReconcile.compId (exampleCompRecon\<lparr>componentReconcile.status := ''SKIPPED_manual''\<rparr>) =
     Some (component.id
       \<lparr>component.id = 1, name = ''network'', isDeleted = False, envId = 1, latestCompRecon = None\<rparr>) \<and>
   \<not> prefix ''skipped''
       (componentReconcile.status (exampleCompRecon\<lparr>componentReconcile.status := ''SKIPPED_manual''\<rparr>)) \<and>
   componentReconcile.status (exampleCompRecon\<lparr>componentReconcile.status := ''SKIPPED_manual''\<rparr>) \<noteq>
     ''waiting_for_parent'' \<and>
   isSkipped (exampleCompRecon\<lparr>componentReconcile.status := ''SKIPPED_manual''\<rparr>) = None"
  by (simp add: getLatestCompReconcile_def whereClause_def likePrefix_def asciiLower_def
      exampleUpperCaseStore_def exampleStore_def exampleCompRecon_def exampleOrg_def)

text \<open>
  C9, amended. For a component whose reconciliation records all belong to the
  organization asked for, \<^verbatim>\<open>getLatestCompReconcile\<close> returns none exactly when the
  component has no record whose status neither starts with \<^verbatim>\<open>skipped\<close>, the ASCII
  letters compared without regard to case, nor is \<^verbatim>\<open>waiting_for_parent\<close>, and whose
  \<^verbatim>\<open>isSkipped\<close> is null or false; otherwise it returns such a record of the component,
  and no such record of the component has a greater start time.
\<close>

theorem C9_latest_meaningful_run:
  assumes "\<forall>r\<in>set (compReconRepo s).
             componentReconcile.compId r = Some (component.id cmp) \<longrightarrow>
             componentReconcile.orgId r = organization.id org"
  shows "((getLatestCompReconcile s org cmp = None) =
            (\<not> (\<exists>r\<in>set (compReconRepo s).
                   componentReconcile.compId r = Some (component.id cmp) \<and>
                   \<not> likePrefix ''skipped'' (componentReconcile.status r) \<and>
                   componentReconcile.status r \<noteq> ''waiting_for_parent'' \<and>
                   (isSkipped r = None \<or> isSkipped r = Some False)))) \<and>
         (\<forall>latest. getLatestCompReconcile s org cmp = Some latest \<longrightarrow>
            latest \<in> set (compReconRepo s) \<and>
            componentReconcile.compId latest = Some (component.id cmp) \<and>
            \<not> likePrefix ''skipped'' (componentReconcile.status latest) \<and>
            componentReconcile.status latest \<noteq> ''waiting_for_parent'' \<and>
            (isSkipped latest = None \<or> isSkipped latest = Some False) \<and>
            (\<forall>r\<in>set (compReconRepo s).
               componentReconcile.compId r = Some (component.id cmp) \<and>
               \<not> likePrefix ''skipped'' (componentReconcile.status r) \<and>
               componentReconcile.status r \<noteq> ''waiting_for_parent'' \<and>
               (isSkipped r = None \<or> isSkipped r = Some False) \<longrightarrow>
               componentReconcile.startDateTime r \<le> componentReconcile.startDateTime latest))"
proof -
  let ?Q = "\<lambda>r. (whereClause org cmp r \<and> isSkipped r = None) \<or>
                 (whereClause org cmp r \<and> isSkipped r = Some False)"
  let ?M = "\<lambda>r. componentReconcile.compId r = Some (component.id cmp) \<and>
                 \<not> likePrefix ''skipped'' (componentReconcile.status r) \<and>
                 componentReconcile.status r \<noteq> ''waiting_for_parent'' \<and>
                 (isSkipped r = None \<or> isSkipped r = Some False)"
  have same: "?Q r = ?M r" if "r \<in> set (compReconRepo s)" for r
    using assms that by (auto simp: whereClause_def)
  then have rows: "filter ?Q (compReconRepo s) = filter ?M (compReconRepo s)"
    by (intro filter_cong) auto
  have def: "getLatestCompReconcile s org cmp = findOneLatest (filter ?M (compReconRepo s))"
    unfolding getLatestCompReconcile_def rows ..
  have none: "(getLatestCompReconcile s org cmp = None) = (\<not> (\<exists>r\<in>set (compReconRepo s). ?M r))"
    unfolding def findOneLatest_None by (simp add: filter_empty_conv)
  have some: "latest \<in> set (compReconRepo s) \<and> ?M latest \<and>
              (\<forall>r\<in>set (compReconRepo s). ?M r \<longrightarrow>
                 componentReconcile.startDateTime r \<le> componentReconcile.startDateTime latest)"
    if "getLatestCompReconcile s org cmp = Some latest" for latest
    using findOneLatest_Some [of "filter ?M (compReconRepo s)" latest] that
    unfolding def by auto
  from none some show ?thesis by blast
qed

theorem C9_latest_meaningful_run_witness:
  "getLatestCompReconcile (exampleStore\<lparr>compReconRepo := exampleRuns 1 2 3 4\<rparr>) exampleOrg
     \<lparr>component.id = 1, name = ''network'', isDeleted = False, envId = 1, latestCompRecon = None\<rparr> =
   Some (exampleCompRecon\<lparr>componentReconcile.reconcileId := 4,
                          componentReconcile.status := ''failed'',
                          componentReconcile.startDateTime := Some 4\<rparr>) \<and>
   exampleCompRecon\<lparr>componentReconcile.reconcileId := 4,
                    componentReconcile.status := ''failed'',
                    componentReconcile.startDateTime := Some 4\<rparr> \<in> set (exampleRuns 1 2 3 4) \<and>
   Some 3 \<le> componentReconcile.startDateTime
               (exampleCompRecon\<lparr>componentReconcile.reconcileId := 4,
                                 componentReconcile.status := ''failed'',
                                 componentReconcile.startDateTime := Some 4\<rparr>)"
proof -
  let ?s = "exampleStore\<lparr>compReconRepo := exampleRuns 1 2 3 4\<rparr>"
  let ?c = "\<lparr>component.id = 1, name = ''network'', isDeleted = False, envId = 1, latestCompRecon = None\<rparr>"
  let ?failed = "exampleCompRecon\<lparr>componentReconcile.reconcileId := 4,
                          componentReconcile.status := ''failed'',
                          componentReconcile.startDateTime := Some 4\<rparr>"
  let ?succeeded = "exampleCompRecon\<lparr>componentReconcile.reconcileId := 3,
                          componentReconcile.status := ''succeeded'',
                          componentReconcile.startDateTime := Some 3\<rparr>"
  have h: "\<forall>r\<in>set (compReconRepo ?s).
             componentReconcile.compId r = Some (component.id ?c) \<longrightarrow>
             componentReconcile.orgId r = organization.id exampleOrg"
    by (simp add: exampleRuns_def exampleCompRecon_def exampleOrg_def)
  have eval: "getLatestCompReconcile ?s exampleOrg ?c = Some ?failed"
    by (rule getLatestCompReconcile_example) simp_all
  from C9_latest_meaningful_run [OF h, THEN conjunct2, THEN spec, THEN mp, OF eval]
  have mem: "?failed \<in> set (compReconRepo ?s)"
    and le: "\<forall>r\<in>set (compReconRepo ?s).
               componentReconcile.compId r = Some (component.id ?c) \<and>
               \<not> likePrefix ''skipped'' (componentReconcile.status r) \<and>
               componentReconcile.status r \<noteq> ''waiting_for_parent'' \<and>
               (isSkipped r = None \<or> isSkipped r = Some False) \<longrightarrow>
               componentReconcile.startDateTime r \<le> componentReconcile.startDateTime ?failed"
    by blast+
  have "?succeeded \<in> set (compReconRepo ?s)"
    by (simp add: exampleRuns_def)
  from le [THEN bspec, OF this]
  have "Some 3 \<le> componentReconcile.startDateTime ?failed"
    by (simp add: exampleCompRecon_def likePrefix_def asciiLower_def)
  with eval mem show ?thesis by simp
qed

end
